theory Spec2Isabelle
  imports Complex_Main
begin

section \<open>Common notions\<close>

text \<open>
  Instants are JavaScript time values: integer milliseconds since the epoch
  (\<open>Date.now()\<close>, \<open>date.getTime()\<close>).  Document identifiers (\<open>_id\<close>) are
  natural numbers handed out by a counter of the database, so that an identifier is
  never given twice.  A response with an error status is a value
  \<open>HttpError status message\<close>; a handler returns \<open>Inl\<close> of it, or \<open>Inr\<close> of
  the body it sends on success.
\<close>

type_synonym time = int
type_synonym oid = nat

datatype http_error = HttpError nat string

section \<open>Token service and the \<open>auth\<close> middleware (middleware/auth.js)\<close>

text \<open>
  \<open>jsonwebtoken\<close> is an external library.  A token is modelled by what
  \<open>jwt.verify\<close> reads from it: the payload's \<open>userId\<close>, the expiry claim (in
  seconds, as the library stores it) and the key it was signed with.
  \<open>jwt.sign\<close> throws when it is given no key.
\<close>

record jwt =
  jwt_userId :: oid
  jwt_exp :: int
  jwt_key :: string

definition jwt_sign :: "oid \<Rightarrow> string option \<Rightarrow> time \<Rightarrow> jwt option" where
  "jwt_sign uid secret now =
     (case secret of
        None \<Rightarrow> None
      | Some k \<Rightarrow>
          if k = [] then None
          else Some \<lparr>jwt_userId = uid, jwt_exp = now div 1000 + 24 * 60 * 60, jwt_key = k\<rparr>)"

definition jwt_verify :: "jwt \<Rightarrow> string \<Rightarrow> time \<Rightarrow> jwt option" where
  "jwt_verify token k now =
     (if jwt_key token = k \<and> now div 1000 < jwt_exp token then Some token else None)"

text \<open>\<open>process.env.JWT_SECRET || 'your_jwt_secret'\<close>: an unset or empty variable
  falls back to the literal.\<close>

definition verify_secret :: "string option \<Rightarrow> string" where
  "verify_secret secret =
     (case secret of None \<Rightarrow> ''your_jwt_secret''
      | Some k \<Rightarrow> if k = [] then ''your_jwt_secret'' else k)"

text \<open>
  The middleware reads the \<open>auth-token\<close> header (\<open>None\<close> when the request has
  none) and, on success, sets \<open>req.user = { id: decoded.userId }\<close>.  The object
  is a map from property names to values, so that reading a property it does not
  have gives \<open>None\<close> (\<open>undefined\<close>).
\<close>

type_synonym req_user = "string \<rightharpoonup> oid"

definition auth :: "string option \<Rightarrow> time \<Rightarrow> jwt option \<Rightarrow> http_error + req_user" where
  "auth secret now header =
     (case header of
        None \<Rightarrow> Inl (HttpError 401 ''No token, authorization denied'')
      | Some token \<Rightarrow>
          (case jwt_verify token (verify_secret secret) now of
             None \<Rightarrow> Inl (HttpError 401 ''Token is not valid'')
           | Some decoded \<Rightarrow> Inr [''id'' \<mapsto> jwt_userId decoded]))"

section \<open>User store (models/User.js)\<close>

text \<open>
  \<open>bcrypt\<close> is an external capability; a hash is kept symbolically as the salt
  and the password it was computed from, and \<open>bcrypt.compare\<close> succeeds exactly on
  that password.
\<close>

datatype hashed = Bcrypt string string

fun bcrypt_compare :: "string \<Rightarrow> hashed \<Rightarrow> bool" where
  "bcrypt_compare pw (Bcrypt salt p) = (p = pw)"

record user =
  user_id :: oid
  name :: "string option"
  email :: string
  password :: "hashed option"
  isVerified :: bool
  verificationCode :: "string option"
  codeExpires :: "time option"
  resetCode :: "string option"
  resetCodeExpires :: "time option"
  user_createdAt :: time

section \<open>Todo store\<close>

text \<open>
  Modelled from the spec: the Todo schema (\<open>models/todoModel\<close>) is not among the
  sources.  The fields are those of section 3 of the specification (owning user
  reference, title, completed flag, optional completion timestamp, optional due date,
  priority low/medium/high, tags, category, notes, creation timestamp); the routes
  read and write exactly these.  The title is the only field the API lists as
  mandatory.
\<close>

datatype priority = Low | Medium | High

record todo =
  todo_id :: oid
  user :: oid
  title :: string
  completed :: bool
  completedAt :: "time option"
  dueDate :: "time option"
  priority :: priority
  tags :: "string list"
  category :: string
  todo_notes :: string
  createdAt :: "time option"

text \<open>The two collections, in their natural (insertion) order, and the identifier
  counter.\<close>

record db =
  users :: "user list"
  todos :: "todo list"
  next_id :: oid

section \<open>Credential routes (routes/auth.js)\<close>

text \<open>
  Request fields are strings; a missing field and the empty string are both falsy in
  JavaScript and take the same branch, so the empty string stands for both.  The code
  drawn with \<open>Math.random\<close>, the salt drawn by \<open>bcrypt.genSalt\<close> and
  whether the mail collaborator delivers are inputs of the handlers.  Failures of the
  persistence layer itself are not modelled.
\<close>

definition findOne_email :: "string \<Rightarrow> user list \<Rightarrow> user option" where
  "findOne_email e us = find (\<lambda>u. email u = e) us"

text \<open>\<open>user.save()\<close> writes the document back under its \<open>_id\<close>.\<close>

definition save_user :: "user \<Rightarrow> user list \<Rightarrow> user list" where
  "save_user u us = map (\<lambda>v. if user_id v = user_id u then u else v) us"

text \<open>\<open>User.findOneAndUpdate({email}, {...}, {upsert: true})\<close>: the first record
  with the email is updated; when there is none, a record with the schema's defaults is
  inserted.\<close>

definition upsert_verification :: "string \<Rightarrow> string \<Rightarrow> time \<Rightarrow> time \<Rightarrow> db \<Rightarrow> db" where
  "upsert_verification e code expires now s =
     (case findOne_email e (users s) of
        Some u \<Rightarrow>
          s\<lparr>users := save_user
               (u\<lparr>email := e, verificationCode := Some code, codeExpires := Some expires,
                  isVerified := False\<rparr>) (users s)\<rparr>
      | None \<Rightarrow>
          s\<lparr>users := users s @
               [\<lparr>user_id = next_id s, name = None, email = e, password = None,
                 isVerified = False, verificationCode = Some code,
                 codeExpires = Some expires, resetCode = None, resetCodeExpires = None,
                 user_createdAt = now\<rparr>],
            next_id := Suc (next_id s)\<rparr>)"

definition send_verification_code ::
  "string \<Rightarrow> string \<Rightarrow> bool \<Rightarrow> time \<Rightarrow> db \<Rightarrow> (http_error + string) \<times> db" where
  "send_verification_code e code mail_ok now s =
     (if e = [] then (Inl (HttpError 400 ''Email is required''), s)
      else if find (\<lambda>u. email u = e \<and> isVerified u) (users s) \<noteq> None then
        (Inl (HttpError 400 ''An account with this email already exists and is verified''), s)
      else
        let s' = upsert_verification e code (now + 10 * 60 * 1000) now s in
        if mail_ok then (Inr ''Verification code sent to your email'', s')
        else (Inl (HttpError 500 ''Failed to send verification code. Please try again.''), s'))"

text \<open>\<open>Date.now() > user.codeExpires\<close> compares numbers; a \<open>null\<close> expiry
  converts to 0.\<close>

definition date_number :: "time option \<Rightarrow> int" where
  "date_number d = (case d of None \<Rightarrow> 0 | Some t \<Rightarrow> t)"

definition verify_code ::
  "string \<Rightarrow> string \<Rightarrow> time \<Rightarrow> db \<Rightarrow> (http_error + string) \<times> db" where
  "verify_code e code now s =
     (if e = [] \<or> code = [] then
        (Inl (HttpError 400 ''Email and verification code are required''), s)
      else
        case findOne_email e (users s) of
          None \<Rightarrow> (Inl (HttpError 400 ''No verification was requested for this email''), s)
        | Some u \<Rightarrow>
            if verificationCode u \<noteq> Some code then
              (Inl (HttpError 400 ''Invalid verification code''), s)
            else if now > date_number (codeExpires u) then
              (Inl (HttpError 400
                 ''Verification code has expired. Please request a new one.''), s)
            else
              (Inr ''Email verified successfully'',
               s\<lparr>users := save_user (u\<lparr>isVerified := True\<rparr>) (users s)\<rparr>))"

record auth_reply =
  reply_token :: jwt
  reply_id :: oid
  reply_name :: "string option"
  reply_email :: string

text \<open>
  In \<open>register\<close> the record is saved before the token is signed, so a failing
  \<open>jwt.sign\<close> answers 500 with the password already stored.  The source's
  \<open>else\<close> branch that creates a new user is unreachable: a missing record has
  already been answered with "Email verification required".
\<close>

definition register ::
  "string \<Rightarrow> string \<Rightarrow> string \<Rightarrow> string \<Rightarrow> string option \<Rightarrow> time \<Rightarrow> db
     \<Rightarrow> (http_error + auth_reply) \<times> db" where
  "register nm e pw salt secret now s =
     (if nm = [] \<or> e = [] \<or> pw = [] then
        (Inl (HttpError 400 ''All fields are required''), s)
      else
        case findOne_email e (users s) of
          None \<Rightarrow>
            (Inl (HttpError 400
               ''Email verification required. Please verify your email first.''), s)
        | Some u \<Rightarrow>
            if password u \<noteq> None then (Inl (HttpError 400 ''User already exists''), s)
            else if \<not> isVerified u then
              (Inl (HttpError 400
                 ''Email verification required. Please verify your email first.''), s)
            else
              let u' = u\<lparr>name := Some nm, password := Some (Bcrypt salt pw),
                         verificationCode := None, codeExpires := None\<rparr>;
                  s' = s\<lparr>users := save_user u' (users s)\<rparr>
              in (case jwt_sign (user_id u') secret now of
                    None \<Rightarrow> (Inl (HttpError 500 ''Server error''), s')
                  | Some token \<Rightarrow>
                      (Inr \<lparr>reply_token = token, reply_id = user_id u',
                            reply_name = name u', reply_email = email u'\<rparr>, s')))"

definition login ::
  "string \<Rightarrow> string \<Rightarrow> string option \<Rightarrow> time \<Rightarrow> db \<Rightarrow> (http_error + auth_reply) \<times> db" where
  "login e pw secret now s =
     (case findOne_email e (users s) of
        None \<Rightarrow> (Inl (HttpError 400 ''Invalid credentials''), s)
      | Some u \<Rightarrow>
          (case password u of
             None \<Rightarrow> (Inl (HttpError 400 ''Invalid credentials''), s)
           | Some h \<Rightarrow>
               if \<not> isVerified u then
                 (Inl (HttpError 400
                    ''Email not verified. Please verify your email before logging in.''), s)
               else if \<not> bcrypt_compare pw h then
                 (Inl (HttpError 400 ''Invalid credentials''), s)
               else
                 (case jwt_sign (user_id u) secret now of
                    None \<Rightarrow> (Inl (HttpError 500 ''Server error''), s)
                  | Some token \<Rightarrow>
                      (Inr \<lparr>reply_token = token, reply_id = user_id u,
                            reply_name = name u, reply_email = email u\<rparr>, s))))"

text \<open>
  \<open>GET /user\<close>.  Mongoose turns \<open>findById(undefined)\<close> into a query for
  \<open>_id: null\<close>, which no document matches.  The projection
  \<open>select('-password -verificationCode -codeExpires -resetCode -resetCodeExpires')\<close>
  keeps the remaining fields.
\<close>

definition findById_user :: "oid option \<Rightarrow> user list \<Rightarrow> user option" where
  "findById_user i us =
     (case i of None \<Rightarrow> None | Some k \<Rightarrow> find (\<lambda>u. user_id u = k) us)"

record user_view =
  view_id :: oid
  view_name :: "string option"
  view_email :: string
  view_isVerified :: bool
  view_createdAt :: time

definition select_public :: "user \<Rightarrow> user_view" where
  "select_public u =
     \<lparr>view_id = user_id u, view_name = name u, view_email = email u,
      view_isVerified = isVerified u, view_createdAt = user_createdAt u\<rparr>"

definition get_user :: "string option \<Rightarrow> time \<Rightarrow> jwt option \<Rightarrow> db \<Rightarrow> http_error + user_view" where
  "get_user secret now header s =
     (case auth secret now header of
        Inl err \<Rightarrow> Inl err
      | Inr req_user \<Rightarrow>
          (case findById_user (req_user ''userId'') (users s) of
             None \<Rightarrow> Inl (HttpError 404 ''User not found'')
           | Some u \<Rightarrow> Inr (select_public u)))"

definition forgot_password ::
  "string \<Rightarrow> string \<Rightarrow> bool \<Rightarrow> time \<Rightarrow> db \<Rightarrow> (http_error + string) \<times> db" where
  "forgot_password e code mail_ok now s =
     (if e = [] then (Inl (HttpError 400 ''Email is required''), s)
      else
        case findOne_email e (users s) of
          None \<Rightarrow> (Inl (HttpError 404 ''User not found''), s)
        | Some u \<Rightarrow>
            let s' = s\<lparr>users := save_user
                         (u\<lparr>resetCode := Some code,
                            resetCodeExpires := Some (now + 30 * 60 * 1000)\<rparr>) (users s)\<rparr>
            in if mail_ok then (Inr ''Password reset code sent to your email'', s')
               else (Inl (HttpError 500 ''Server error''), s'))"

text \<open>\<open>User.findOne({email, resetCode: code, resetCodeExpires: {$gt: Date.now()}})\<close>;
  a \<open>null\<close> expiry satisfies no \<open>$gt\<close>.\<close>

definition findOne_reset :: "string \<Rightarrow> string \<Rightarrow> time \<Rightarrow> user list \<Rightarrow> user option" where
  "findOne_reset e code now us =
     find (\<lambda>u. email u = e \<and> resetCode u = Some code \<and>
               (case resetCodeExpires u of None \<Rightarrow> False | Some t \<Rightarrow> t > now)) us"

definition reset_password ::
  "string \<Rightarrow> string \<Rightarrow> string \<Rightarrow> string \<Rightarrow> time \<Rightarrow> db \<Rightarrow> (http_error + string) \<times> db" where
  "reset_password e code newPassword salt now s =
     (if e = [] \<or> code = [] \<or> newPassword = [] then
        (Inl (HttpError 400 ''Email, reset code, and new password are required''), s)
      else
        case findOne_reset e code now (users s) of
          None \<Rightarrow> (Inl (HttpError 400 ''Invalid or expired reset code''), s)
        | Some u \<Rightarrow>
            (Inr ''Password has been reset successfully'',
             s\<lparr>users := save_user
                  (u\<lparr>password := Some (Bcrypt salt newPassword), resetCode := None,
                     resetCodeExpires := None\<rparr>) (users s)\<rparr>))"

section \<open>Todo routes (routes/todoRoutes, shipped in the file of the middleware)\<close>

text \<open>
  A request body is a JSON object: every field of the schema is absent (\<open>None\<close>) or
  present with a value of the field's type, a date being possibly \<open>null\<close>
  (\<open>Some None\<close>).  Values of another type are outside the model.  An \<open>_id\<close> is
  unique within its collection (the database enforces it), so an operation "by id"
  acts on every document with that identifier, which is at most one.
\<close>

record todo_body =
  body_title :: "string option"
  body_completed :: "bool option"
  body_completedAt :: "time option option"
  body_dueDate :: "time option option"
  body_priority :: "priority option"
  body_tags :: "string list option"
  body_category :: "string option"
  body_notes :: "string option"
  body_user :: "oid option"
  body_createdAt :: "time option option"

definition or_default :: "'a option \<Rightarrow> 'a \<Rightarrow> 'a" where
  "or_default x d = (case x of None \<Rightarrow> d | Some v \<Rightarrow> v)"

text \<open>\<open>POST /\<close>.  \<open>req.body.category || 'general'\<close> also replaces an empty
  string.  The constructor is given no \<open>completedAt\<close>; the creation timestamp is
  the schema's default.  Without a title \<open>todo.save()\<close> fails the validation and
  the route answers 400 with the library's message, for which a fixed text stands.\<close>

definition create_todo :: "oid \<Rightarrow> todo_body \<Rightarrow> time \<Rightarrow> db \<Rightarrow> (http_error + todo) \<times> db" where
  "create_todo uid b now s =
     (case body_title b of
        None \<Rightarrow> (Inl (HttpError 400 ''Todo validation failed''), s)
      | Some ttl \<Rightarrow>
          let t = \<lparr>todo_id = next_id s, user = uid, title = ttl,
                   completed = or_default (body_completed b) False,
                   completedAt = None,
                   dueDate = or_default (body_dueDate b) None,
                   priority = or_default (body_priority b) Medium,
                   tags = or_default (body_tags b) [],
                   category = (case body_category b of None \<Rightarrow> ''general''
                               | Some c \<Rightarrow> if c = [] then ''general'' else c),
                   todo_notes = or_default (body_notes b) [],
                   createdAt = Some now\<rparr>
          in (Inr t, s\<lparr>todos := todos s @ [t], next_id := Suc (next_id s)\<rparr>))"

text \<open>\<open>Todo.findOne({ _id: req.params.id, user: req.user.id })\<close>\<close>

definition findOne_owned :: "oid \<Rightarrow> oid \<Rightarrow> todo list \<Rightarrow> todo option" where
  "findOne_owned tid uid ts = find (\<lambda>t. todo_id t = tid \<and> user t = uid) ts"

text \<open>The completion stamp of \<open>PUT /:id\<close>, written into the body before the
  update.\<close>

definition stamp_completedAt :: "time \<Rightarrow> todo \<Rightarrow> todo_body \<Rightarrow> todo_body" where
  "stamp_completedAt now t b =
     (if body_completed b = Some True \<and> \<not> completed t then
        b\<lparr>body_completedAt := Some (Some now)\<rparr>
      else if body_completed b = Some False then b\<lparr>body_completedAt := Some None\<rparr>
      else b)"

text \<open>\<open>findByIdAndUpdate(id, body)\<close> sets every field the body carries.\<close>

definition apply_body :: "todo_body \<Rightarrow> todo \<Rightarrow> todo" where
  "apply_body b t =
     t\<lparr>title := or_default (body_title b) (title t),
       completed := or_default (body_completed b) (completed t),
       completedAt := or_default (body_completedAt b) (completedAt t),
       dueDate := or_default (body_dueDate b) (dueDate t),
       priority := or_default (body_priority b) (priority t),
       tags := or_default (body_tags b) (tags t),
       category := or_default (body_category b) (category t),
       todo_notes := or_default (body_notes b) (todo_notes t),
       user := or_default (body_user b) (user t),
       createdAt := or_default (body_createdAt b) (createdAt t)\<rparr>"

definition findByIdAndUpdate :: "oid \<Rightarrow> todo_body \<Rightarrow> todo list \<Rightarrow> todo list" where
  "findByIdAndUpdate tid b ts = map (\<lambda>t. if todo_id t = tid then apply_body b t else t) ts"

definition update_todo ::
  "oid \<Rightarrow> oid \<Rightarrow> todo_body \<Rightarrow> time \<Rightarrow> db \<Rightarrow> (http_error + todo option) \<times> db" where
  "update_todo uid tid b now s =
     (case findOne_owned tid uid (todos s) of
        None \<Rightarrow> (Inl (HttpError 404 ''Todo not found''), s)
      | Some t \<Rightarrow>
          let ts = findByIdAndUpdate tid (stamp_completedAt now t b) (todos s)
          in (Inr (find (\<lambda>t. todo_id t = tid) ts), s\<lparr>todos := ts\<rparr>))"

definition findByIdAndDelete :: "oid \<Rightarrow> todo list \<Rightarrow> todo list" where
  "findByIdAndDelete tid ts = filter (\<lambda>t. todo_id t \<noteq> tid) ts"

definition delete_todo :: "oid \<Rightarrow> oid \<Rightarrow> db \<Rightarrow> (http_error + string) \<times> db" where
  "delete_todo uid tid s =
     (case findOne_owned tid uid (todos s) of
        None \<Rightarrow> (Inl (HttpError 404 ''Todo not found''), s)
      | Some t \<Rightarrow> (Inr ''Todo deleted'', s\<lparr>todos := findByIdAndDelete tid (todos s)\<rparr>))"

subsection \<open>The planning engine (\<open>POST /plan-tomorrow\<close>)\<close>

text \<open>
  The server's local time is UTC plus a fixed offset \<open>tz\<close> in milliseconds; changes
  of the offset (daylight saving) are not modelled.  \<open>getDay\<close> is the weekday,
  0 for Sunday (1 January 1970 was a Thursday); \<open>tomorrow_of\<close> is
  \<open>setDate(getDate() + 1); setHours(0, 0, 0, 0)\<close>.
\<close>

definition ms_per_day :: int where
  "ms_per_day = 24 * 60 * 60 * 1000"

definition getDay :: "int \<Rightarrow> time \<Rightarrow> nat" where
  "getDay tz t = nat (((t + tz) div ms_per_day + 4) mod 7)"

definition tomorrow_of :: "int \<Rightarrow> time \<Rightarrow> time" where
  "tomorrow_of tz now = ((now + tz) div ms_per_day + 1) * ms_per_day - tz"

text \<open>\<open>dueDate: { $gte: tomorrow, $lt: new Date(tomorrow.getTime() + 24*60*60*1000) }\<close>\<close>

definition due_within :: "time \<Rightarrow> todo \<Rightarrow> bool" where
  "due_within tomorrow t =
     (case dueDate t of None \<Rightarrow> False | Some d \<Rightarrow> tomorrow \<le> d \<and> d < tomorrow + ms_per_day)"

text \<open>
  A JavaScript object used as a dictionary is an association list in insertion order.
  \<open>Object.keys\<close> enumerates integer keys in ascending numeric order whatever the
  insertion order; the keys of \<open>completionByDay\<close> are weekday numbers.
\<close>

fun obj_set :: "'k \<Rightarrow> 'v \<Rightarrow> ('k \<times> 'v) list \<Rightarrow> ('k \<times> 'v) list" where
  "obj_set k v [] = [(k, v)]"
| "obj_set k v ((k', v') # kvs) =
     (if k' = k then (k, v) # kvs else (k', v') # obj_set k v kvs)"

definition object_keys :: "(nat \<times> 'v) list \<Rightarrow> nat list" where
  "object_keys obj = sort (map fst obj)"

record category_stat =
  count :: nat
  totalTime :: int

text \<open>The body of \<open>completedTodos.forEach\<close>: a record missing either timestamp is
  skipped (a \<open>Date\<close> object is truthy whatever its value).\<close>

definition analyse_todo ::
  "int \<Rightarrow> todo \<Rightarrow> (nat \<times> nat) list \<times> (string \<times> category_stat) list
     \<Rightarrow> (nat \<times> nat) list \<times> (string \<times> category_stat) list" where
  "analyse_todo tz t acc =
     (case (completedAt t, createdAt t) of
        (Some finished, Some created) \<Rightarrow>
          let completionByDay = fst acc;
              completionByCategory = snd acc;
              day = getDay tz finished;
              cat = (if category t = [] then ''general'' else category t);
              st = or_default (map_of completionByCategory cat) \<lparr>count = 0, totalTime = 0\<rparr>
          in (obj_set day (or_default (map_of completionByDay day) 0 + 1) completionByDay,
              obj_set cat \<lparr>count = count st + 1, totalTime = totalTime st + (finished - created)\<rparr>
                completionByCategory)
      | _ \<Rightarrow> acc)"

text \<open>\<open>totalTime / count\<close> is a floating-point division in the source; the model
  keeps the exact quotient.  No statement below depends on it.\<close>

definition average_times :: "(string \<times> category_stat) list \<Rightarrow> (string \<times> rat) list" where
  "average_times byCategory =
     map (\<lambda>(cat, st). (cat, if count st > 0 then of_int (totalTime st) / of_nat (count st) else 0))
       byCategory"

text \<open>The loop that finds the day with the highest completion count.\<close>

definition pick_day :: "(nat \<times> nat) list \<Rightarrow> nat \<Rightarrow> nat \<times> nat \<Rightarrow> nat \<times> nat" where
  "pick_day completionByDay day best =
     (if or_default (map_of completionByDay day) 0 > snd best
      then (day, or_default (map_of completionByDay day) 0) else best)"

definition most_productive :: "(nat \<times> nat) list \<Rightarrow> nat" where
  "most_productive completionByDay =
     fst (fold (pick_day completionByDay) (object_keys completionByDay) (0, 0))"

record analysis =
  mostProductiveDay :: nat
  completionByCategory :: "(string \<times> category_stat) list"
  averageCompletionTimes :: "(string \<times> rat) list"

definition analyse :: "int \<Rightarrow> todo list \<Rightarrow> analysis" where
  "analyse tz completedTodos =
     (let acc = fold (analyse_todo tz) completedTodos ([], [])
      in \<lparr>mostProductiveDay = most_productive (fst acc),
          completionByCategory = snd acc,
          averageCompletionTimes = average_times (snd acc)\<rparr>)"

text \<open>\<open>task.dueDate = tomorrow; await task.save()\<close> writes the due date of the
  stored document with the task's \<open>_id\<close>.\<close>

definition save_dueDate :: "time \<Rightarrow> todo \<Rightarrow> todo list \<Rightarrow> todo list" where
  "save_dueDate d task ts =
     map (\<lambda>t. if todo_id t = todo_id task then t\<lparr>dueDate := Some d\<rparr> else t) ts"

text \<open>\<open>Math.ceil(Math.max(3, completedTodos.length / 7 + 1))\<close> on a count is
  the integer below (the quotient is rounded up).\<close>

definition optimalTaskCount :: "nat \<Rightarrow> nat" where
  "optimalTaskCount completedCount = max 3 ((completedCount + 6) div 7 + 1)"

datatype plan_reply = AlreadyPlanned nat | Planned nat analysis

text \<open>The three queries of the handler: \<open>Todo.find({ completed: true, user })\<close>,
  \<open>Todo.find({ completed: false, user })\<close> and
  \<open>Todo.find({ dueDate: { $gte, $lt }, user })\<close>.\<close>

definition find_completed :: "oid \<Rightarrow> todo list \<Rightarrow> todo list" where
  "find_completed uid ts = filter (\<lambda>t. completed t \<and> user t = uid) ts"

definition find_pending :: "oid \<Rightarrow> todo list \<Rightarrow> todo list" where
  "find_pending uid ts = filter (\<lambda>t. \<not> completed t \<and> user t = uid) ts"

definition find_due :: "time \<Rightarrow> oid \<Rightarrow> todo list \<Rightarrow> todo list" where
  "find_due tomorrow uid ts = filter (\<lambda>t. due_within tomorrow t \<and> user t = uid) ts"

definition highPriorityTasks :: "todo list \<Rightarrow> todo list" where
  "highPriorityTasks pendingTodos = filter (\<lambda>t. priority t = High) pendingTodos"

text \<open>
  The medium-priority tasks that fill the plan.  The high-priority tasks are elements
  of \<open>pendingTodos\<close>, so assigning their due date also changes what the filter over
  \<open>pendingTodos\<close> sees (\<open>pendingTodos'\<close>).  \<open>Math.max(0, a - b)\<close> on counts
  is the truncated subtraction of \<open>nat\<close>.
\<close>

definition tasksToAdd :: "time \<Rightarrow> nat \<Rightarrow> todo list \<Rightarrow> todo list" where
  "tasksToAdd tomorrow completedCount pendingTodos =
     (let pendingTodos' =
            map (\<lambda>t. if priority t = High then t\<lparr>dueDate := Some tomorrow\<rparr> else t)
              pendingTodos;
          additionalTasksNeeded =
            optimalTaskCount completedCount - length (highPriorityTasks pendingTodos)
      in if additionalTasksNeeded > 0 then
           take additionalTasksNeeded
             (filter (\<lambda>t. priority t = Medium \<and> dueDate t = None) pendingTodos')
         else [])"

text \<open>The handler.\<close>

definition plan_tomorrow :: "int \<Rightarrow> oid \<Rightarrow> time \<Rightarrow> db \<Rightarrow> plan_reply \<times> db" where
  "plan_tomorrow tz uid now s =
     (let completedTodos = find_completed uid (todos s);
          pendingTodos = find_pending uid (todos s);
          tomorrow = tomorrow_of tz now;
          existingPlannedTasks = find_due tomorrow uid (todos s)
      in if length existingPlannedTasks > 0 then
           (AlreadyPlanned (length existingPlannedTasks), s)
         else
           let ts1 = fold (save_dueDate tomorrow) (highPriorityTasks pendingTodos) (todos s);
               ts2 = fold (save_dueDate tomorrow)
                       (tasksToAdd tomorrow (length completedTodos) pendingTodos) ts1;
               tomorrowTasks = find_due tomorrow uid ts2
           in (Planned (length tomorrowTasks) (analyse tz completedTodos), s\<lparr>todos := ts2\<rparr>))"

text \<open>The route behind the middleware: \<open>router.post('/plan-tomorrow', auth, ...)\<close>.
  The middleware always sets \<open>req.user.id\<close>, so the branch for its absence is
  never taken (lemma \<open>auth_sets_id\<close>).\<close>

definition plan_tomorrow_route ::
  "string option \<Rightarrow> int \<Rightarrow> time \<Rightarrow> jwt option \<Rightarrow> db \<Rightarrow> (http_error + plan_reply) \<times> db" where
  "plan_tomorrow_route secret tz now header s =
     (case auth secret now header of
        Inl err \<Rightarrow> (Inl err, s)
      | Inr req_user \<Rightarrow>
          (case req_user ''id'' of
             None \<Rightarrow> (Inl (HttpError 500 []), s)
           | Some uid \<Rightarrow> (Inr (fst (plan_tomorrow tz uid now s)), snd (plan_tomorrow tz uid now s))))"

section \<open>Scheduler (the server's entry file)\<close>

text \<open>
  \<open>cron.schedule('0 0 * * *', ...)\<close>: at midnight the job sends one
  \<open>POST /api/todos/plan-tomorrow\<close> with \<open>fetch\<close>, giving only the method, so
  the request carries no \<open>auth-token\<close> header.  The job logs the answer.
\<close>

definition cron_job :: "string option \<Rightarrow> int \<Rightarrow> time \<Rightarrow> db \<Rightarrow> (http_error + plan_reply) \<times> db" where
  "cron_job secret tz now s = plan_tomorrow_route secret tz now None s"

section \<open>Runs of operations\<close>

datatype todo_op =
  Create oid todo_body time
| Update oid oid todo_body time
| Delete oid oid
| PlanTomorrow oid time

fun todo_step :: "int \<Rightarrow> todo_op \<Rightarrow> db \<Rightarrow> db" where
  "todo_step tz (Create uid b now) s = snd (create_todo uid b now s)"
| "todo_step tz (Update uid tid b now) s = snd (update_todo uid tid b now s)"
| "todo_step tz (Delete uid tid) s = snd (delete_todo uid tid s)"
| "todo_step tz (PlanTomorrow uid now) s = snd (plan_tomorrow tz uid now s)"

definition run_todo_ops :: "int \<Rightarrow> todo_op list \<Rightarrow> db \<Rightarrow> db" where
  "run_todo_ops tz ops s = fold (todo_step tz) ops s"

datatype cred_op =
  SendVerificationCode string string bool time
| VerifyCode string string time
| Register string string string string "string option" time
| Login string string "string option" time
| ForgotPassword string string bool time
| ResetPassword string string string string time

fun cred_step :: "cred_op \<Rightarrow> db \<Rightarrow> db" where
  "cred_step (SendVerificationCode e code mail_ok now) s =
     snd (send_verification_code e code mail_ok now s)"
| "cred_step (VerifyCode e code now) s = snd (verify_code e code now s)"
| "cred_step (Register nm e pw salt secret now) s = snd (register nm e pw salt secret now s)"
| "cred_step (Login e pw secret now) s = snd (login e pw secret now s)"
| "cred_step (ForgotPassword e code mail_ok now) s = snd (forgot_password e code mail_ok now s)"
| "cred_step (ResetPassword e code pw salt now) s = snd (reset_password e code pw salt now s)"

definition run_cred_ops :: "cred_op list \<Rightarrow> db \<Rightarrow> db" where
  "run_cred_ops ops s = fold cred_step ops s"

definition empty_db :: db where
  "empty_db = \<lparr>users = [], todos = [], next_id = 0\<rparr>"

text \<open>The tasks whose due date the planning handler writes, in the order of its two
  loops.\<close>

definition assigned :: "int \<Rightarrow> oid \<Rightarrow> time \<Rightarrow> db \<Rightarrow> todo list" where
  "assigned tz uid now s =
     highPriorityTasks (find_pending uid (todos s)) @
     tasksToAdd (tomorrow_of tz now) (length (find_completed uid (todos s)))
       (find_pending uid (todos s))"

section \<open>Notions the properties are stated with\<close>

text \<open>In the words of the specification (section 4.3, steps 2 and 4): the weekday a
  completed todo counts for (none when a timestamp is missing) and the number of
  completions per weekday; and the count a histogram holds for a day.\<close>

definition completion_day :: "int \<Rightarrow> todo \<Rightarrow> nat option" where
  "completion_day tz t =
     (case (completedAt t, createdAt t) of
        (Some finished, Some created) \<Rightarrow> Some (getDay tz finished)
      | _ \<Rightarrow> None)"

definition completions_on :: "int \<Rightarrow> todo list \<Rightarrow> nat \<Rightarrow> nat" where
  "completions_on tz completedTodos day =
     length (filter (\<lambda>t. completion_day tz t = Some day) completedTodos)"

definition day_count :: "(nat \<times> nat) list \<Rightarrow> nat \<Rightarrow> nat" where
  "day_count byDay d = or_default (map_of byDay d) 0"

text \<open>The owner of the todo with a given identifier; identifiers are distinct and below
  the counter; the requests that write the owner or the completion stamp directly, or
  create a todo as completed.\<close>

definition owner_of :: "db \<Rightarrow> oid \<Rightarrow> oid option" where
  "owner_of s i = map_option user (find (\<lambda>t. todo_id t = i) (todos s))"

definition wf_todos :: "db \<Rightarrow> bool" where
  "wf_todos s \<longleftrightarrow>
     distinct (map todo_id (todos s)) \<and> (\<forall>t \<in> set (todos s). todo_id t < next_id s)"

fun sets_user :: "todo_op \<Rightarrow> bool" where
  "sets_user (Update uid tid b now) = (body_user b \<noteq> None)"
| "sets_user _ = False"

fun sets_completedAt :: "todo_op \<Rightarrow> bool" where
  "sets_completedAt (Update uid tid b now) = (body_completedAt b \<noteq> None)"
| "sets_completedAt _ = False"

fun creates_completed :: "todo_op \<Rightarrow> bool" where
  "creates_completed (Create uid b now) = (body_completed b = Some True)"
| "creates_completed _ = False"



text \<open>Unverified records carry no password; the reset requests.\<close>

definition unverified_no_password :: "db \<Rightarrow> bool" where
  "unverified_no_password s \<longleftrightarrow> (\<forall>u \<in> set (users s). \<not> isVerified u \<longrightarrow> password u = None)"

fun is_reset :: "cred_op \<Rightarrow> bool" where
  "is_reset (ResetPassword e code pw salt now) = True"
| "is_reset _ = False"

section \<open>Example stores\<close>

text \<open>A registered user: the code is requested, verified, and the registration
  completed.  \<open>alice_token\<close> is the token \<open>login\<close> hands out two seconds after
  the epoch.\<close>

definition alice_db :: db where
  "alice_db = run_cred_ops
     [SendVerificationCode ''a@x.org'' ''123456'' True 0,
      VerifyCode ''a@x.org'' ''123456'' 1000,
      Register ''Alice'' ''a@x.org'' ''pw'' ''salt'' (Some ''key'') 2000] empty_db"

definition alice :: user where
  "alice = \<lparr>user_id = 0, name = Some ''Alice'', email = ''a@x.org'',
            password = Some (Bcrypt ''salt'' ''pw''), isVerified = True,
            verificationCode = None, codeExpires = None, resetCode = None,
            resetCodeExpires = None, user_createdAt = 0\<rparr>"

definition alice_token :: jwt where
  "alice_token = \<lparr>jwt_userId = 0, jwt_exp = 86402, jwt_key = ''key''\<rparr>"

text \<open>Todos of user 7: a high-priority task that already has a due date (today), a
  medium-priority and a low-priority task without one.  \<open>low_db\<close> holds a single
  low-priority task of user 2.\<close>

definition empty_body :: todo_body where
  "empty_body = \<lparr>body_title = None, body_completed = None, body_completedAt = None,
     body_dueDate = None, body_priority = None, body_tags = None, body_category = None,
     body_notes = None, body_user = None, body_createdAt = None\<rparr>"

definition new_todo :: "oid \<Rightarrow> oid \<Rightarrow> string \<Rightarrow> priority \<Rightarrow> time \<Rightarrow> todo" where
  "new_todo i uid ttl p now =
     \<lparr>todo_id = i, user = uid, title = ttl, completed = False, completedAt = None,
      dueDate = None, priority = p, tags = [], category = ''general'', todo_notes = [],
      createdAt = Some now\<rparr>"

definition planning_db :: db where
  "planning_db = run_todo_ops 0
     [Create 7 (empty_body\<lparr>body_title := Some ''report'', body_priority := Some High,
                           body_dueDate := Some (Some 4000)\<rparr>) 1000,
      Create 7 (empty_body\<lparr>body_title := Some ''mail''\<rparr>) 2000,
      Create 7 (empty_body\<lparr>body_title := Some ''tidy'', body_priority := Some Low\<rparr>) 3000]
     empty_db"

definition low_db :: db where
  "low_db = \<lparr>users = [], todos = [new_todo 0 2 ''tidy'' Low 3000], next_id = 1\<rparr>"

text \<open>A store in which a verification code for \<open>c@x.org\<close> is pending.\<close>

definition pending_user :: user where
  "pending_user = \<lparr>user_id = 0, name = None, email = ''c@x.org'', password = None,
     isVerified = False, verificationCode = Some ''123456'', codeExpires = Some 600000,
     resetCode = None, resetCodeExpires = None, user_createdAt = 0\<rparr>"

definition pending_db :: db where
  "pending_db = run_cred_ops [SendVerificationCode ''c@x.org'' ''123456'' True 0] empty_db"

text \<open>Two todos of user 7, the first completed on a Wednesday (7 January 1970), the
  second, created later, on the Monday before; and a run of requests on that store.\<close>

definition history_db :: db where
  "history_db = run_todo_ops 0
     [Create 7 (empty_body\<lparr>body_title := Some ''draft''\<rparr>) 0,
      Create 7 (empty_body\<lparr>body_title := Some ''review''\<rparr>) 86400000,
      Update 7 1 (empty_body\<lparr>body_completed := Some True\<rparr>) 345600000,
      Update 7 0 (empty_body\<lparr>body_completed := Some True\<rparr>) 518400000]
     empty_db"

definition history_ops :: "todo_op list" where
  "history_ops =
     [Update 7 0 (empty_body\<lparr>body_completed := Some False\<rparr>) 600000000,
      Delete 7 1,
      Create 8 (empty_body\<lparr>body_title := Some ''call''\<rparr>) 600000001,
      PlanTomorrow 7 600000002]"

section \<open>Properties\<close>

subsection \<open>Evaluation of the credential routes\<close>

lemmas cred_defs = run_cred_ops_def empty_db_def send_verification_code_def
  upsert_verification_def findOne_email_def verify_code_def save_user_def date_number_def
  register_def jwt_sign_def forgot_password_def reset_password_def findOne_reset_def login_def

lemma alice_db_eq: "alice_db = \<lparr>users = [alice], todos = [], next_id = 1\<rparr>"
  by (simp add: alice_db_def alice_def cred_defs Let_def)

subsection \<open>Scheduler and middleware\<close>

lemma auth_sets_id: "auth secret now header = Inr ru \<Longrightarrow> ru ''id'' \<noteq> None"
  by (auto simp: auth_def split: option.splits)

text \<open>
  C1.  The claim: at every midnight trigger the scheduler performs one planning run
  per user.  What the code does: the job's single request carries no token, the
  middleware answers 401 and the planning handler is never entered; the store is left
  as it was, whatever users and todos it holds.
\<close>

theorem cron_job_unauthorized:
  "cron_job secret tz now s = (Inl (HttpError 401 ''No token, authorization denied''), s)"
  by (simp add: cron_job_def plan_tomorrow_route_def auth_def)

subsection \<open>\<open>GET /user\<close>\<close>

lemma get_user_never_succeeds: "get_user secret now header s \<noteq> Inr v"
  by (auto simp: get_user_def auth_def findById_user_def split: option.splits)

text \<open>
  C2.  The claim: a request to \<open>GET /auth/user\<close> with a valid, unexpired token of
  user U answers with U's record.  What the code does: the middleware stores the
  identifier under \<open>id\<close>, the route reads \<open>userId\<close>, and the lookup finds
  nobody.  Here Alice logs in, her token verifies, her record is in the store under the
  token's identifier, and the route answers 404.
\<close>

theorem get_user_valid_token_not_found:
  "fst (login ''a@x.org'' ''pw'' (Some ''key'') 2000 alice_db) =
     Inr \<lparr>reply_token = alice_token, reply_id = 0, reply_name = Some ''Alice'',
          reply_email = ''a@x.org''\<rparr> \<and>
   jwt_verify alice_token (verify_secret (Some ''key'')) 3000 = Some alice_token \<and>
   find (\<lambda>u. user_id u = jwt_userId alice_token) (users alice_db) = Some alice \<and>
   get_user (Some ''key'') 3000 (Some alice_token) alice_db =
     Inl (HttpError 404 ''User not found'')"
  by (simp add: alice_db_eq alice_def alice_token_def login_def findOne_email_def jwt_sign_def
      jwt_verify_def verify_secret_def get_user_def auth_def findById_user_def)

subsection \<open>Passwords and verification\<close>

text \<open>
  C4.  The claim: in every reachable user store a record with
  \<open>isVerified = false\<close> has no password, and only \<open>register\<close> sets a first
  password.  What the code does: \<open>reset-password\<close> does not look at
  \<open>isVerified\<close>.  A code is requested for a new address (never verified), a reset is
  requested for it, and the reset stores a password on the unverified record.
\<close>

theorem reset_password_sets_password_unverified:
  "users (run_cred_ops
     [SendVerificationCode ''b@x.org'' ''123456'' True 0,
      ForgotPassword ''b@x.org'' ''654321'' True 1000,
      ResetPassword ''b@x.org'' ''654321'' ''pw'' ''salt'' 2000] empty_db) =
   [\<lparr>user_id = 0, name = None, email = ''b@x.org'',
     password = Some (Bcrypt ''salt'' ''pw''), isVerified = False,
     verificationCode = Some ''123456'', codeExpires = Some 600000, resetCode = None,
     resetCodeExpires = None, user_createdAt = 0\<rparr>]"
  by (simp add: cred_defs Let_def)

text \<open>The reset flow is the only way to break the invariant: through any run of the
  other credential requests, unverified records stay without a password.\<close>

lemma save_user_inv:
  assumes "unverified_no_password s" and "\<not> isVerified u' \<longrightarrow> password u' = None"
  shows "unverified_no_password (s\<lparr>users := save_user u' (users s)\<rparr>)"
  using assms by (auto simp: unverified_no_password_def save_user_def)

lemma cred_step_inv:
  assumes inv: "unverified_no_password s" and op: "\<not> is_reset op"
  shows "unverified_no_password (cred_step op s)"
proof (cases op)
  case (SendVerificationCode e code mail_ok now)
  have "unverified_no_password (upsert_verification e code x now s)"
    if "find (\<lambda>u. email u = e \<and> isVerified u) (users s) = None" for x
  proof (cases "findOne_email e (users s)")
    case None
    with inv show ?thesis
      by (auto simp: upsert_verification_def unverified_no_password_def)
  next
    case (Some u)
    then have "u \<in> set (users s)" "email u = e"
      by (auto simp: findOne_email_def find_Some_iff)
    with that have "\<not> isVerified u" by (auto simp: find_None_iff)
    with inv \<open>u \<in> set (users s)\<close> have "password u = None"
      by (auto simp: unverified_no_password_def)
    with Some inv show ?thesis
      by (auto simp: upsert_verification_def intro!: save_user_inv)
  qed
  with inv SendVerificationCode show ?thesis
    by (auto simp: send_verification_code_def Let_def)
next
  case (VerifyCode e code now)
  with inv show ?thesis
    by (auto simp: verify_code_def intro!: save_user_inv split: option.splits)
next
  case (Register nm e pw salt secret now)
  with inv show ?thesis
    by (auto simp: register_def Let_def findOne_email_def find_Some_iff
        intro!: save_user_inv split: option.splits)
next
  case (Login e pw secret now)
  with inv show ?thesis by (auto simp: login_def split: option.splits)
next
  case (ForgotPassword e code mail_ok now)
  have "unverified_no_password (s\<lparr>users := save_user (u\<lparr>resetCode := c, resetCodeExpires := x\<rparr>) (users s)\<rparr>)"
    if "findOne_email e (users s) = Some u" for u c x
  proof -
    from that have "u \<in> set (users s)" by (auto simp: findOne_email_def find_Some_iff)
    with inv show ?thesis
      by (intro save_user_inv) (auto simp: unverified_no_password_def)
  qed
  with inv ForgotPassword show ?thesis
    by (auto simp: forgot_password_def Let_def split: option.splits)
next
  case (ResetPassword e code pw salt now)
  with op show ?thesis by simp
qed

lemma unverified_no_password_run:
  "unverified_no_password s \<Longrightarrow> \<forall>op \<in> set ops. \<not> is_reset op \<Longrightarrow>
   unverified_no_password (run_cred_ops ops s)"
proof (induction ops arbitrary: s)
  case Nil
  then show ?case by (simp add: run_cred_ops_def)
next
  case (Cons op ops)
  from Cons.prems have "unverified_no_password (cred_step op s)"
    by (intro cred_step_inv) auto
  from Cons.IH [OF this] Cons.prems(2) show ?case by (simp add: run_cred_ops_def)
qed


subsection \<open>The planning engine\<close>

lemma fold_save_dueDate:
  "fold (save_dueDate d) tasks ts =
   map (\<lambda>t. if todo_id t \<in> todo_id ` set tasks then t\<lparr>dueDate := Some d\<rparr> else t) ts"
proof (induction tasks arbitrary: ts)
  case Nil
  show ?case by simp
next
  case (Cons a tasks)
  show ?case
    by (simp add: Cons.IH) (auto simp: save_dueDate_def)
qed

lemma plan_tomorrow_guard:
  "find_due (tomorrow_of tz now) uid (todos s) \<noteq> [] \<Longrightarrow>
   plan_tomorrow tz uid now s =
     (AlreadyPlanned (length (find_due (tomorrow_of tz now) uid (todos s))), s)"
  by (simp add: plan_tomorrow_def Let_def)

lemma plan_tomorrow_pass:
  "find_due (tomorrow_of tz now) uid (todos s) = [] \<Longrightarrow>
   plan_tomorrow tz uid now s =
     (Planned (length (find_due (tomorrow_of tz now) uid
                 (fold (save_dueDate (tomorrow_of tz now)) (assigned tz uid now s) (todos s))))
        (analyse tz (find_completed uid (todos s))),
      s\<lparr>todos := fold (save_dueDate (tomorrow_of tz now)) (assigned tz uid now s) (todos s)\<rparr>)"
  by (simp add: plan_tomorrow_def Let_def assigned_def)

lemma ms_per_day_pos: "0 < ms_per_day"
  by (simp add: ms_per_day_def)

lemma due_within_assigned: "due_within d (t\<lparr>dueDate := Some d\<rparr>)"
  using ms_per_day_pos by (simp add: due_within_def)

lemma tasksToAdd_eq:
  "tasksToAdd d c pending =
     take (optimalTaskCount c - length (highPriorityTasks pending))
       (filter (\<lambda>t. priority t = Medium \<and> dueDate t = None) pending)"
proof -
  have same: "filter (\<lambda>t. priority t = Medium \<and> dueDate t = None)
          (map (\<lambda>t. if priority t = High then t\<lparr>dueDate := Some d\<rparr> else t) xs) =
        filter (\<lambda>t. priority t = Medium \<and> dueDate t = None) xs" for xs
    by (induction xs) auto
  show ?thesis by (simp add: tasksToAdd_def Let_def same)
qed

lemma distinct_filter_append_take:
  assumes "distinct xs" and "\<And>x. P x \<Longrightarrow> \<not> Q x"
  shows "distinct (filter P xs @ take n (filter Q xs))"
proof -
  have "set (take n (filter Q xs)) \<subseteq> {x \<in> set xs. Q x}"
    using set_take_subset [of n "filter Q xs"] by auto
  with assms show ?thesis by (auto simp: distinct_take)
qed

lemma assigned_subset: "set (assigned tz uid now s) \<subseteq> set (find_pending uid (todos s))"
  using set_take_subset [of _ "filter (\<lambda>t. priority t = Medium \<and> dueDate t = None)
      (find_pending uid (todos s))"]
  by (auto simp: assigned_def tasksToAdd_eq highPriorityTasks_def)

lemma assigned_distinct:
  assumes "distinct (map todo_id (todos s))"
  shows "distinct (map todo_id (assigned tz uid now s))"
proof -
  from assms have d: "distinct (todos s)" and inj: "inj_on todo_id (set (todos s))"
    by (simp_all add: distinct_map)
  have "distinct (find_pending uid (todos s))"
    using d by (simp add: find_pending_def)
  then have "distinct (assigned tz uid now s)"
    unfolding assigned_def tasksToAdd_eq highPriorityTasks_def
    by (rule distinct_filter_append_take) simp
  moreover have "set (assigned tz uid now s) \<subseteq> set (todos s)"
    using assigned_subset [of tz uid now s] by (auto simp: find_pending_def)
  then have "inj_on todo_id (set (assigned tz uid now s))"
    using inj by (rule inj_on_subset [rotated])
  ultimately show ?thesis by (simp add: distinct_map)
qed

lemma length_filter_ids:
  assumes "distinct (map f xs)" and "distinct (map f ys)" and "set ys \<subseteq> set xs"
  shows "length (filter (\<lambda>x. f x \<in> f ` set ys) xs) = length ys"
proof -
  have "length (filter (\<lambda>x. f x \<in> f ` set ys) xs) =
        length (filter (\<lambda>i. i \<in> f ` set ys) (map f xs))"
    by (simp add: filter_map comp_def)
  also have "\<dots> = card (set (filter (\<lambda>i. i \<in> f ` set ys) (map f xs)))"
    by (rule distinct_card [symmetric]) (simp add: assms(1))
  also have "set (filter (\<lambda>i. i \<in> f ` set ys) (map f xs)) = f ` set ys"
    using assms(3) by auto
  also have "card (f ` set ys) = length ys"
    using assms(2) by (metis distinct_card length_map set_map)
  finally show ?thesis .
qed

lemma find_due_after:
  assumes guard: "find_due d uid ts = []"
    and own: "set tasks \<subseteq> set (find_pending uid ts)"
    and dist: "distinct (map todo_id ts)"
  shows "find_due d uid (fold (save_dueDate d) tasks ts) =
         map (\<lambda>t. t\<lparr>dueDate := Some d\<rparr>) (filter (\<lambda>t. todo_id t \<in> todo_id ` set tasks) ts)"
proof -
  have inj: "inj_on todo_id (set ts)" using dist by (simp add: distinct_map)
  have a: "user t = uid" if "t \<in> set ts" "todo_id t \<in> todo_id ` set tasks" for t
  proof -
    from that(2) obtain a where a: "a \<in> set tasks" "todo_id t = todo_id a" by auto
    with own have "a \<in> set ts" "user a = uid" by (auto simp: find_pending_def)
    with inj that(1) a(2) show ?thesis by (auto dest: inj_onD)
  qed
  have b: "\<not> (due_within d t \<and> user t = uid)" if "t \<in> set ts" for t
    using guard that by (auto simp: find_due_def filter_empty_conv)
  show ?thesis
    unfolding fold_save_dueDate find_due_def filter_map comp_def
    by (rule arg_cong [where f = "map _"] map_cong filter_cong | 
        auto simp: a b due_within_assigned)+
qed


lemmas todo_defs = run_todo_ops_def empty_db_def empty_body_def create_todo_def or_default_def
  new_todo_def

lemmas plan_defs = find_due_def find_pending_def find_completed_def due_within_def
  tomorrow_of_def ms_per_day_def highPriorityTasks_def tasksToAdd_eq optimalTaskCount_def
  assigned_def save_dueDate_def

lemma planning_db_eq:
  "planning_db = \<lparr>users = [],
     todos = [(new_todo 0 7 ''report'' High 1000)\<lparr>dueDate := Some 4000\<rparr>,
              new_todo 1 7 ''mail'' Medium 2000, new_todo 2 7 ''tidy'' Low 3000],
     next_id = 3\<rparr>"
  by (simp add: planning_db_def todo_defs Let_def)

lemma planning_db_assigned:
  "assigned 0 7 5000 planning_db =
     [(new_todo 0 7 ''report'' High 1000)\<lparr>dueDate := Some 4000\<rparr>,
      new_todo 1 7 ''mail'' Medium 2000]"
  by (simp add: planning_db_eq plan_defs new_todo_def)

lemma analyse_Nil:
  "analyse tz [] =
     \<lparr>mostProductiveDay = 0, completionByCategory = [], averageCompletionTimes = []\<rparr>"
  by (simp add: analyse_def most_productive_def object_keys_def average_times_def)

text \<open>
  C5 (as amended).  Whenever one of the user's todos is already due within
  \<open>[tomorrow, tomorrow + 24h)\<close>, the handler answers \<open>planned = false\<close> with the
  number of such todos and leaves the store as it is.  When the guard passes and the
  first call assigns at least one task, it reports that number of tasks, and a second
  call on the same calendar day answers \<open>planned = false\<close> with
  \<open>tasksExisting\<close> equal to it.  When the guard passes and the first call assigns
  nothing, it answers \<open>planned = true\<close> with \<open>taskCount = 0\<close>, leaves the
  store as it is, and a second call on the same calendar day plans again with the same
  answer.
\<close>

theorem plan_tomorrow_idempotent:
  "(find_due (tomorrow_of tz now) uid (todos s) \<noteq> [] \<longrightarrow>
      plan_tomorrow tz uid now s =
        (AlreadyPlanned (length (find_due (tomorrow_of tz now) uid (todos s))), s)) \<and>
   (find_due (tomorrow_of tz now) uid (todos s) = [] \<and> distinct (map todo_id (todos s)) \<and>
    assigned tz uid now s \<noteq> [] \<and> tomorrow_of tz now' = tomorrow_of tz now \<longrightarrow>
      fst (plan_tomorrow tz uid now s) =
        Planned (length (assigned tz uid now s)) (analyse tz (find_completed uid (todos s))) \<and>
      plan_tomorrow tz uid now' (snd (plan_tomorrow tz uid now s)) =
        (AlreadyPlanned (length (assigned tz uid now s)), snd (plan_tomorrow tz uid now s))) \<and>
   (find_due (tomorrow_of tz now) uid (todos s) = [] \<and> assigned tz uid now s = [] \<and>
    tomorrow_of tz now' = tomorrow_of tz now \<longrightarrow>
      plan_tomorrow tz uid now s =
        (Planned 0 (analyse tz (find_completed uid (todos s))), s) \<and>
      plan_tomorrow tz uid now' (snd (plan_tomorrow tz uid now s)) =
        (Planned 0 (analyse tz (find_completed uid (todos s))), s))"
proof (intro conjI impI)
  assume "find_due (tomorrow_of tz now) uid (todos s) \<noteq> []"
  then show "plan_tomorrow tz uid now s =
        (AlreadyPlanned (length (find_due (tomorrow_of tz now) uid (todos s))), s)"
    by (rule plan_tomorrow_guard)
next
  let ?d = "tomorrow_of tz now"
  let ?ts = "fold (save_dueDate ?d) (assigned tz uid now s) (todos s)"
  assume h: "find_due ?d uid (todos s) = [] \<and> distinct (map todo_id (todos s)) \<and>
    assigned tz uid now s \<noteq> [] \<and> tomorrow_of tz now' = ?d"
  then have guard: "find_due ?d uid (todos s) = []" and dist: "distinct (map todo_id (todos s))"
    and ne: "assigned tz uid now s \<noteq> []" and same: "tomorrow_of tz now' = ?d"
    by simp_all
  have sub: "set (assigned tz uid now s) \<subseteq> set (todos s)"
    using assigned_subset [of tz uid now s] by (auto simp: find_pending_def)
  have len: "length (find_due ?d uid ?ts) = length (assigned tz uid now s)"
    unfolding find_due_after [OF guard assigned_subset dist] length_map
    by (rule length_filter_ids [OF dist assigned_distinct [OF dist] sub])
  show first: "fst (plan_tomorrow tz uid now s) =
        Planned (length (assigned tz uid now s)) (analyse tz (find_completed uid (todos s)))"
    by (simp add: plan_tomorrow_pass [OF guard] len)
  have snd: "snd (plan_tomorrow tz uid now s) = s\<lparr>todos := ?ts\<rparr>"
    by (simp add: plan_tomorrow_pass [OF guard])
  have "find_due (tomorrow_of tz now') uid (todos (s\<lparr>todos := ?ts\<rparr>)) \<noteq> []"
    using len ne by (auto simp: same)
  from plan_tomorrow_guard [OF this]
  show "plan_tomorrow tz uid now' (snd (plan_tomorrow tz uid now s)) =
        (AlreadyPlanned (length (assigned tz uid now s)), snd (plan_tomorrow tz uid now s))"
    by (simp add: snd same len)
next
  assume h: "find_due (tomorrow_of tz now) uid (todos s) = [] \<and> assigned tz uid now s = [] \<and>
    tomorrow_of tz now' = tomorrow_of tz now"
  then have guard: "find_due (tomorrow_of tz now) uid (todos s) = []"
    and guard': "find_due (tomorrow_of tz now') uid (todos s) = []"
    and none: "assigned tz uid now s = []"
    by simp_all
  have "assigned tz uid now' s = assigned tz uid now s"
    by (simp add: assigned_def tasksToAdd_eq)
  with none have none': "assigned tz uid now' s = []"
    by simp
  show first: "plan_tomorrow tz uid now s =
        (Planned 0 (analyse tz (find_completed uid (todos s))), s)"
    using guard by (simp add: plan_tomorrow_pass [OF guard] none)
  have "plan_tomorrow tz uid now' s =
        (Planned 0 (analyse tz (find_completed uid (todos s))), s)"
    using guard' by (simp add: plan_tomorrow_pass [OF guard'] none')
  then show "plan_tomorrow tz uid now' (snd (plan_tomorrow tz uid now s)) =
        (Planned 0 (analyse tz (find_completed uid (todos s))), s)"
    by (simp add: first)
qed

text \<open>The two calls on the example store: two tasks are assigned, and the second call
  reports them.  On the store with a single low-priority task nothing is assigned and
  both calls plan.\<close>

theorem plan_tomorrow_idempotent_witness:
  "(find_due (tomorrow_of 0 5000) 7 (todos planning_db) = [] \<and>
    distinct (map todo_id (todos planning_db)) \<and>
    assigned 0 7 5000 planning_db \<noteq> [] \<and> tomorrow_of 0 6000 = tomorrow_of 0 5000) \<and>
   (fst (plan_tomorrow 0 7 5000 planning_db) = Planned 2 (analyse 0 []) \<and>
    plan_tomorrow 0 7 6000 (snd (plan_tomorrow 0 7 5000 planning_db)) =
      (AlreadyPlanned 2, snd (plan_tomorrow 0 7 5000 planning_db))) \<and>
   find_due (tomorrow_of 0 6000) 7 (todos (snd (plan_tomorrow 0 7 5000 planning_db))) \<noteq> [] \<and>
   plan_tomorrow 0 7 6000 (snd (plan_tomorrow 0 7 5000 planning_db)) =
     (AlreadyPlanned
        (length (find_due (tomorrow_of 0 6000) 7
           (todos (snd (plan_tomorrow 0 7 5000 planning_db))))),
      snd (plan_tomorrow 0 7 5000 planning_db)) \<and>
   (find_due (tomorrow_of 0 5000) 2 (todos low_db) = [] \<and> assigned 0 2 5000 low_db = [] \<and>
    tomorrow_of 0 6000 = tomorrow_of 0 5000) \<and>
   plan_tomorrow 0 2 5000 low_db =
     (Planned 0 (analyse 0 (find_completed 2 (todos low_db))), low_db) \<and>
   plan_tomorrow 0 2 6000 (snd (plan_tomorrow 0 2 5000 low_db)) =
     (Planned 0 (analyse 0 (find_completed 2 (todos low_db))), low_db)"
proof -
  have h: "find_due (tomorrow_of 0 5000) 7 (todos planning_db) = [] \<and>
      distinct (map todo_id (todos planning_db)) \<and>
      assigned 0 7 5000 planning_db \<noteq> [] \<and> tomorrow_of 0 6000 = tomorrow_of 0 5000"
    by (simp add: planning_db_assigned) (simp add: planning_db_eq plan_defs new_todo_def)
  have c: "find_completed 7 (todos planning_db) = []"
    by (simp add: planning_db_eq plan_defs new_todo_def)
  have l: "length (assigned 0 7 5000 planning_db) = 2"
    by (simp add: planning_db_assigned)
  have a: "fst (plan_tomorrow 0 7 5000 planning_db) = Planned 2 (analyse 0 []) \<and>
    plan_tomorrow 0 7 6000 (snd (plan_tomorrow 0 7 5000 planning_db)) =
      (AlreadyPlanned 2, snd (plan_tomorrow 0 7 5000 planning_db))"
    using plan_tomorrow_idempotent [of 0 5000 7 planning_db 6000, THEN conjunct2, THEN conjunct1,
        THEN mp, OF h]
    unfolding l c .
  have g: "find_due (tomorrow_of 0 6000) 7 (todos (snd (plan_tomorrow 0 7 5000 planning_db))) \<noteq> []"
    by (simp add: plan_tomorrow_pass [OF h [THEN conjunct1]] fold_save_dueDate planning_db_assigned)
      (simp add: planning_db_eq plan_defs new_todo_def)
  note b = plan_tomorrow_idempotent [of 0 6000 7 "snd (plan_tomorrow 0 7 5000 planning_db)",
      THEN conjunct1, rule_format, OF g]
  have k: "find_due (tomorrow_of 0 5000) 2 (todos low_db) = [] \<and> assigned 0 2 5000 low_db = [] \<and>
      tomorrow_of 0 6000 = tomorrow_of 0 5000"
    by (simp add: low_db_def plan_defs new_todo_def)
  note r = plan_tomorrow_idempotent [of 0 5000 2 low_db 6000, THEN conjunct2, THEN conjunct2,
      THEN mp, OF k]
  from h a g b k r show ?thesis by blast
qed

text \<open>
  C5, the claim as stated fails: a user whose only pending task has low priority is
  assigned nothing by the first call, and the second call plans again
  (\<open>planned = true\<close>).
\<close>

theorem plan_tomorrow_low_only_replans:
  "fst (plan_tomorrow 0 2 5000 low_db) = Planned 0 (analyse 0 []) \<and>
   fst (plan_tomorrow 0 2 6000 (snd (plan_tomorrow 0 2 5000 low_db))) = Planned 0 (analyse 0 [])"
  by (simp add: plan_tomorrow_def Let_def low_db_def new_todo_def find_due_def find_pending_def
      find_completed_def due_within_def highPriorityTasks_def tasksToAdd_eq)

text \<open>
  C6.  In a run that passes the idempotence guard, every pending high-priority todo of
  the user is stored with \<open>dueDate = tomorrow\<close>, whatever its due date was and
  whatever the optimal task count is.
\<close>

theorem high_priority_assigned_tomorrow:
  assumes guard: "find_due (tomorrow_of tz now) uid (todos s) = []"
    and t: "t \<in> set (todos s)" "user t = uid" "\<not> completed t" "priority t = High"
  shows "t\<lparr>dueDate := Some (tomorrow_of tz now)\<rparr> \<in> set (todos (snd (plan_tomorrow tz uid now s)))"
proof -
  let ?f = "\<lambda>t. if todo_id t \<in> todo_id ` set (assigned tz uid now s)
                 then t\<lparr>dueDate := Some (tomorrow_of tz now)\<rparr> else t"
  from t have "t \<in> set (assigned tz uid now s)"
    by (simp add: assigned_def highPriorityTasks_def find_pending_def)
  then have "?f t = t\<lparr>dueDate := Some (tomorrow_of tz now)\<rparr>" by simp
  moreover have "?f t \<in> set (map ?f (todos s))"
    unfolding set_map using t(1) by (rule imageI)
  moreover have "todos (snd (plan_tomorrow tz uid now s)) = map ?f (todos s)"
    by (simp add: plan_tomorrow_pass [OF guard] fold_save_dueDate)
  ultimately show ?thesis by simp
qed

theorem high_priority_assigned_tomorrow_witness:
  "find_due (tomorrow_of 0 5000) 7 (todos planning_db) = [] \<and>
   (new_todo 0 7 ''report'' High 1000)\<lparr>dueDate := Some 4000\<rparr> \<in> set (todos planning_db) \<and>
   user ((new_todo 0 7 ''report'' High 1000)\<lparr>dueDate := Some 4000\<rparr>) = 7 \<and>
   \<not> completed ((new_todo 0 7 ''report'' High 1000)\<lparr>dueDate := Some 4000\<rparr>) \<and>
   priority ((new_todo 0 7 ''report'' High 1000)\<lparr>dueDate := Some 4000\<rparr>) = High \<and>
   (new_todo 0 7 ''report'' High 1000)\<lparr>dueDate := Some 86400000\<rparr>
     \<in> set (todos (snd (plan_tomorrow 0 7 5000 planning_db)))"
proof -
  let ?t = "(new_todo 0 7 ''report'' High 1000)\<lparr>dueDate := Some 4000\<rparr>"
  have g: "find_due (tomorrow_of 0 5000) 7 (todos planning_db) = []"
    by (simp add: planning_db_eq plan_defs new_todo_def)
  have m: "?t \<in> set (todos planning_db)" by (simp add: planning_db_eq)
  have p: "user ?t = 7" "\<not> completed ?t" "priority ?t = High"
    by (simp_all add: new_todo_def)
  have d: "tomorrow_of 0 5000 = 86400000" by (simp add: tomorrow_of_def ms_per_day_def)
  have "?t\<lparr>dueDate := Some (tomorrow_of 0 5000)\<rparr> = (new_todo 0 7 ''report'' High 1000)\<lparr>dueDate := Some 86400000\<rparr>"
    by (simp add: d)
  with high_priority_assigned_tomorrow [OF g m p] g m p show ?thesis by simp
qed

text \<open>
  C10.  For a user who owns no todo, the handler answers \<open>planned = true\<close> with
  \<open>taskCount = 0\<close> and leaves the store as it is, and so does an immediately
  repeated call.
\<close>

theorem plan_tomorrow_no_todos:
  assumes "filter (\<lambda>t. user t = uid) (todos s) = []"
  shows "plan_tomorrow tz uid now s =
           (Planned 0 \<lparr>mostProductiveDay = 0, completionByCategory = [],
                       averageCompletionTimes = []\<rparr>, s) \<and>
         plan_tomorrow tz uid now' (snd (plan_tomorrow tz uid now s)) =
           (Planned 0 \<lparr>mostProductiveDay = 0, completionByCategory = [],
                       averageCompletionTimes = []\<rparr>, s)"
proof -
  from assms have none: "\<forall>t \<in> set (todos s). user t \<noteq> uid"
    by (simp add: filter_empty_conv)
  have "plan_tomorrow tz uid n s = (Planned 0 (analyse tz []), s)" for n
    using none
    by (simp add: plan_tomorrow_def Let_def find_due_def find_pending_def find_completed_def
        highPriorityTasks_def tasksToAdd_def filter_empty_conv)
  then show ?thesis by (simp add: analyse_Nil)
qed

theorem plan_tomorrow_no_todos_witness:
  "filter (\<lambda>t. user t = 3) (todos planning_db) = [] \<and>
   plan_tomorrow 0 3 5000 planning_db =
     (Planned 0 \<lparr>mostProductiveDay = 0, completionByCategory = [],
                 averageCompletionTimes = []\<rparr>, planning_db) \<and>
   plan_tomorrow 0 3 6000 (snd (plan_tomorrow 0 3 5000 planning_db)) =
     (Planned 0 \<lparr>mostProductiveDay = 0, completionByCategory = [],
                 averageCompletionTimes = []\<rparr>, planning_db)"
proof -
  have h: "filter (\<lambda>t. user t = 3) (todos planning_db) = []"
    by (simp add: planning_db_eq new_todo_def)
  from plan_tomorrow_no_todos [OF h, of 0 5000 6000] h show ?thesis by blast
qed

subsection \<open>\<open>verify-code\<close>\<close>

lemma find_save_user:
  "find (\<lambda>v. email v = e) us = Some u \<Longrightarrow> email u' = e \<Longrightarrow> user_id u' = user_id u \<Longrightarrow>
   find (\<lambda>v. email v = e) (save_user u' us) = Some u'"
  by (induction us) (auto simp: save_user_def)

lemma pending_db_eq: "pending_db = \<lparr>users = [pending_user], todos = [], next_id = 1\<rparr>"
  by (simp add: pending_db_def pending_user_def cred_defs Let_def)

text \<open>
  C8, the claim as stated fails: with an empty (or missing) email the handler answers
  "Email and verification code are required" although no record exists for the email.
\<close>

theorem verify_code_empty_email:
  "findOne_email [] (users empty_db) = None \<and>
   fst (verify_code [] ''123456'' 0 empty_db) =
     Inl (HttpError 400 ''Email and verification code are required'') \<and>
   fst (verify_code [] ''123456'' 0 empty_db) \<noteq>
     Inl (HttpError 400 ''No verification was requested for this email'')"
  by (simp add: verify_code_def findOne_email_def empty_db_def)

text \<open>
  C8 (as amended).  When the email or the code is missing or empty, the handler fails
  with "Email and verification code are required" before any lookup and leaves the
  store as it is.  For a non-empty email and a non-empty code: the handler fails with
  "No verification was requested" exactly when no record exists for the email;
  otherwise with "Invalid verification code" exactly when the stored code differs from
  the submitted one; otherwise with "expired" exactly when \<open>now > codeExpires\<close>;
  otherwise it succeeds, saves the record with \<open>isVerified = true\<close> and nothing else
  changed, and that record is the one found for the email afterwards.
\<close>

theorem verify_code_outcomes:
  "(e = [] \<or> code = [] \<longrightarrow>
      verify_code e code now s =
        (Inl (HttpError 400 ''Email and verification code are required''), s)) \<and>
   (e \<noteq> [] \<and> code \<noteq> [] \<longrightarrow>
         (fst (verify_code e code now s) =
            Inl (HttpError 400 ''No verification was requested for this email'')
          \<longleftrightarrow> findOne_email e (users s) = None) \<and>
         (\<forall>u. findOne_email e (users s) = Some u \<longrightarrow>
            (fst (verify_code e code now s) = Inl (HttpError 400 ''Invalid verification code'')
               \<longleftrightarrow> verificationCode u \<noteq> Some code) \<and>
            (verificationCode u = Some code \<longrightarrow>
               (fst (verify_code e code now s) =
                  Inl (HttpError 400 ''Verification code has expired. Please request a new one.'')
                \<longleftrightarrow> now > date_number (codeExpires u)) \<and>
               (now \<le> date_number (codeExpires u) \<longrightarrow>
                  fst (verify_code e code now s) = Inr ''Email verified successfully'' \<and>
                  snd (verify_code e code now s) =
                    s\<lparr>users := save_user (u\<lparr>isVerified := True\<rparr>) (users s)\<rparr> \<and>
                  findOne_email e (users (snd (verify_code e code now s))) =
                    Some (u\<lparr>isVerified := True\<rparr>)))))"
proof -
  have found: "findOne_email e (save_user (u\<lparr>isVerified := True\<rparr>) (users s)) =
      Some (u\<lparr>isVerified := True\<rparr>)" if "findOne_email e (users s) = Some u" for u
  proof -
    from that have "email u = e" by (auto simp: findOne_email_def find_Some_iff)
    with that show ?thesis
      unfolding findOne_email_def by (intro find_save_user) simp_all
  qed
  have empty: "e = [] \<or> code = [] \<longrightarrow>
      verify_code e code now s =
        (Inl (HttpError 400 ''Email and verification code are required''), s)"
    by (auto simp: verify_code_def)
  have present: "e \<noteq> [] \<and> code \<noteq> [] \<longrightarrow>
         (fst (verify_code e code now s) =
            Inl (HttpError 400 ''No verification was requested for this email'')
          \<longleftrightarrow> findOne_email e (users s) = None) \<and>
         (\<forall>u. findOne_email e (users s) = Some u \<longrightarrow>
            (fst (verify_code e code now s) = Inl (HttpError 400 ''Invalid verification code'')
               \<longleftrightarrow> verificationCode u \<noteq> Some code) \<and>
            (verificationCode u = Some code \<longrightarrow>
               (fst (verify_code e code now s) =
                  Inl (HttpError 400 ''Verification code has expired. Please request a new one.'')
                \<longleftrightarrow> now > date_number (codeExpires u)) \<and>
               (now \<le> date_number (codeExpires u) \<longrightarrow>
                  fst (verify_code e code now s) = Inr ''Email verified successfully'' \<and>
                  snd (verify_code e code now s) =
                    s\<lparr>users := save_user (u\<lparr>isVerified := True\<rparr>) (users s)\<rparr> \<and>
                  findOne_email e (users (snd (verify_code e code now s))) =
                    Some (u\<lparr>isVerified := True\<rparr>))))"
    using found by (auto simp: verify_code_def split: option.splits)
  from empty present show ?thesis by (rule conjI)
qed

text \<open>The pending code of the example store is accepted at the instant of its expiry
  and refused one millisecond later; a request without a code, or without an email, is
  refused as incomplete although the record exists.\<close>

theorem verify_code_outcomes_witness:
  "''c@x.org'' \<noteq> [] \<and> ''123456'' \<noteq> [] \<and>
   findOne_email ''c@x.org'' (users pending_db) = Some pending_user \<and>
   verificationCode pending_user = Some ''123456'' \<and>
   codeExpires pending_user = Some 600000 \<and>
   fst (verify_code ''c@x.org'' ''123456'' 600000 pending_db) =
     Inr ''Email verified successfully'' \<and>
   findOne_email ''c@x.org'' (users (snd (verify_code ''c@x.org'' ''123456'' 600000 pending_db))) =
     Some (pending_user\<lparr>isVerified := True\<rparr>) \<and>
   fst (verify_code ''c@x.org'' ''123456'' 600001 pending_db) =
     Inl (HttpError 400 ''Verification code has expired. Please request a new one.'') \<and>
   verify_code ''c@x.org'' [] 1000 pending_db =
     (Inl (HttpError 400 ''Email and verification code are required''), pending_db) \<and>
   verify_code [] ''123456'' 1000 pending_db =
     (Inl (HttpError 400 ''Email and verification code are required''), pending_db)"
proof -
  have n: "''c@x.org'' \<noteq> []" "''123456'' \<noteq> []" by simp_all
  have f: "findOne_email ''c@x.org'' (users pending_db) = Some pending_user"
    by (simp add: pending_db_eq findOne_email_def pending_user_def)
  have c: "verificationCode pending_user = Some ''123456''"
    "codeExpires pending_user = Some 600000"
    by (simp_all add: pending_user_def)
  have d: "(600000::int) \<le> date_number (codeExpires pending_user)"
    "(600001::int) > date_number (codeExpires pending_user)"
    by (simp_all add: c date_number_def)
  note present = verify_code_outcomes [where e = "''c@x.org''" and code = "''123456''"
      and s = pending_db, THEN conjunct2, THEN mp, OF conjI, OF n]
  note ok = present [of 600000, THEN conjunct2, rule_format, OF f,
      THEN conjunct2, rule_format, OF c(1), THEN conjunct2, rule_format, OF d(1)]
  note late = present [of 600001, THEN conjunct2, rule_format, OF f,
      THEN conjunct2, rule_format, OF c(1), THEN conjunct1]
  have "''c@x.org'' = [] \<or> ([]::string) = []" by simp
  note no_code = verify_code_outcomes [where e = "''c@x.org''" and code = "[]" and now = 1000
      and s = pending_db, THEN conjunct1, THEN mp, OF this]
  have "([]::string) = [] \<or> ''123456'' = []" by simp
  note no_email = verify_code_outcomes [where e = "[]" and code = "''123456''" and now = 1000
      and s = pending_db, THEN conjunct1, THEN mp, OF this]
  from n f c ok late d(2) no_code no_email show ?thesis by blast
qed

subsection \<open>The most productive day\<close>

lemma getDay_less: "getDay tz t < 7"
  by (simp add: getDay_def nat_less_iff)

lemma map_of_obj_set: "map_of (obj_set k v kvs) = (map_of kvs)(k \<mapsto> v)"
  by (induction kvs) (auto simp: fun_eq_iff)

lemma keys_obj_set: "fst ` set (obj_set k v kvs) = insert k (fst ` set kvs)"
  by (simp add: dom_map_of_conv_image_fst [symmetric] map_of_obj_set)

lemma distinct_obj_set: "distinct (map fst kvs) \<Longrightarrow> distinct (map fst (obj_set k v kvs))"
  by (induction kvs) (auto simp: keys_obj_set)

lemma analyse_todo_day:
  "day_count (fst (analyse_todo tz t acc)) d =
   day_count (fst acc) d + (if completion_day tz t = Some d then 1 else 0)"
  by (auto simp: analyse_todo_def completion_day_def day_count_def or_default_def Let_def
      map_of_obj_set split: option.splits)

lemma analyse_todo_keys:
  "fst ` set (fst (analyse_todo tz t acc)) \<subseteq> fst ` set (fst acc) \<union> {d. d < 7}"
  by (auto simp: analyse_todo_def Let_def keys_obj_set getDay_less split: option.splits)

lemma analyse_todo_distinct:
  "distinct (map fst (fst acc)) \<Longrightarrow> distinct (map fst (fst (analyse_todo tz t acc)))"
  by (auto simp: analyse_todo_def Let_def distinct_obj_set split: option.splits)

lemma fold_analyse_day:
  "day_count (fst (fold (analyse_todo tz) ts acc)) d =
   day_count (fst acc) d + completions_on tz ts d"
  by (induction ts arbitrary: acc) (simp_all add: completions_on_def analyse_todo_day)

lemma fold_analyse_keys:
  "fst ` set (fst acc) \<subseteq> {d. d < 7} \<Longrightarrow>
   fst ` set (fst (fold (analyse_todo tz) ts acc)) \<subseteq> {d. d < 7}"
proof (induction ts arbitrary: acc)
  case Nil then show ?case by simp
next
  case (Cons t ts)
  have "fst ` set (fst (analyse_todo tz t acc)) \<subseteq> {d. d < 7}"
    using analyse_todo_keys [of tz t acc] Cons.prems by blast
  from Cons.IH [OF this] show ?case by simp
qed

lemma fold_analyse_distinct:
  "distinct (map fst (fst acc)) \<Longrightarrow> distinct (map fst (fst (fold (analyse_todo tz) ts acc)))"
  by (induction ts arbitrary: acc) (simp_all add: analyse_todo_distinct)

text \<open>The loop over the sorted keys.\<close>

lemma pick_day_fold:
  assumes "sorted_wrt (<) ks"
  shows "case fold (pick_day obj) ks (0, 0) of (m, h) \<Rightarrow>
           ((h = 0 \<and> m = 0) \<or> (m \<in> set ks \<and> h = day_count obj m \<and> 0 < h)) \<and>
           (\<forall>k \<in> set ks. day_count obj k \<le> h) \<and>
           (\<forall>k \<in> set ks. k < m \<longrightarrow> day_count obj k < h)"
  using assms
proof (induction ks rule: rev_induct)
  case Nil
  show ?case by simp
next
  case (snoc x xs)
  from snoc.prems have sorted: "sorted_wrt (<) xs" and above: "\<forall>k \<in> set xs. k < x"
    by (auto simp: sorted_wrt_append)
  obtain m h where mh: "fold (pick_day obj) xs (0, 0) = (m, h)"
    by (cases "fold (pick_day obj) xs (0, 0)")
  from snoc.IH [OF sorted] mh
  have ih: "(h = 0 \<and> m = 0) \<or> (m \<in> set xs \<and> h = day_count obj m \<and> 0 < h)"
    "\<forall>k \<in> set xs. day_count obj k \<le> h"
    "\<forall>k \<in> set xs. k < m \<longrightarrow> day_count obj k < h"
    by simp_all
  show ?case
  proof (cases "day_count obj x > h")
    case True
    then have "fold (pick_day obj) (xs @ [x]) (0, 0) = (x, day_count obj x)"
      by (simp add: mh pick_day_def day_count_def)
    moreover have "\<forall>k \<in> set xs. day_count obj k < day_count obj x"
      using ih(2) True by fastforce
    ultimately show ?thesis using True by (auto simp: less_imp_le)
  next
    case False
    then have eq: "fold (pick_day obj) (xs @ [x]) (0, 0) = (m, h)"
      by (simp add: mh pick_day_def day_count_def)
    have "\<not> x < m" using ih(1) above by auto
    with False ih show ?thesis unfolding eq by auto
  qed
qed

lemma most_productive_max:
  assumes "distinct (map fst obj)"
  shows "(\<forall>d. day_count obj d \<le> day_count obj (most_productive obj)) \<and>
         (\<forall>d < most_productive obj. day_count obj d < day_count obj (most_productive obj)) \<and>
         (most_productive obj = 0 \<or> most_productive obj \<in> fst ` set obj)"
proof -
  let ?ks = "object_keys obj"
  have s: "sorted_wrt (<) ?ks"
    using assms by (simp add: object_keys_def strict_sorted_iff)
  have keys: "set ?ks = fst ` set obj" by (simp add: object_keys_def)
  obtain m h where mh: "fold (pick_day obj) ?ks (0, 0) = (m, h)"
    by (cases "fold (pick_day obj) ?ks (0, 0)")
  have m: "most_productive obj = m" by (simp add: most_productive_def mh)
  from pick_day_fold [OF s, of obj] mh
  have p: "(h = 0 \<and> m = 0) \<or> (m \<in> set ?ks \<and> h = day_count obj m \<and> 0 < h)"
    "\<forall>k \<in> set ?ks. day_count obj k \<le> h"
    "\<forall>k \<in> set ?ks. k < m \<longrightarrow> day_count obj k < h"
    by simp_all
  have absent: "day_count obj d = 0" if "d \<notin> set ?ks" for d
    using that by (simp add: keys day_count_def or_default_def map_of_eq_None_iff [THEN iffD2])
  have le: "day_count obj d \<le> h" for d
    using p(2) absent [of d] by (cases "d \<in> set ?ks") auto
  have hm: "h = day_count obj m"
    using p(1) le [of m] by auto
  have lt: "day_count obj d < h" if "d < m" for d
  proof (cases "d \<in> set ?ks")
    case True
    with p(3) that show ?thesis by auto
  next
    case False
    from that p(1) have "0 < h" by auto
    with absent [OF False] show ?thesis by simp
  qed
  from p(1) have "m = 0 \<or> m \<in> fst ` set obj" by (auto simp: keys)
  with le lt show ?thesis by (simp add: m hm [symmetric])
qed

text \<open>
  C9.  The reported \<open>mostProductiveDay\<close> is a weekday (0 to 6) whose completion
  count, over the completed todos that have both timestamps, is the highest; every
  weekday with a lower index has a strictly smaller count, so among tied weekdays the
  lowest index is reported; and when there are no such completions the report is 0.
  The order in which the weekdays enter the histogram plays no part: the loop walks
  the keys in ascending order.
\<close>

theorem most_productive_day_lowest_max:
  "(\<forall>d. completions_on tz completedTodos d
          \<le> completions_on tz completedTodos (mostProductiveDay (analyse tz completedTodos))) \<and>
   (\<forall>d < mostProductiveDay (analyse tz completedTodos).
      completions_on tz completedTodos d
        < completions_on tz completedTodos (mostProductiveDay (analyse tz completedTodos))) \<and>
   mostProductiveDay (analyse tz completedTodos) < 7 \<and>
   ((\<forall>d. completions_on tz completedTodos d = 0) \<longrightarrow>
      mostProductiveDay (analyse tz completedTodos) = 0)"
proof -
  let ?obj = "fst (fold (analyse_todo tz) completedTodos ([], []))"
  have mp: "mostProductiveDay (analyse tz completedTodos) = most_productive ?obj"
    by (simp add: analyse_def Let_def)
  have cnt: "day_count ?obj d = completions_on tz completedTodos d" for d
    using fold_analyse_day [of tz completedTodos "([], [])" d]
    by (simp add: day_count_def or_default_def)
  have "distinct (map fst ?obj)" by (rule fold_analyse_distinct) simp
  from most_productive_max [OF this]
  have a: "\<forall>d. day_count ?obj d \<le> day_count ?obj (most_productive ?obj)"
    and b: "\<forall>d < most_productive ?obj. day_count ?obj d < day_count ?obj (most_productive ?obj)"
    and c: "most_productive ?obj = 0 \<or> most_productive ?obj \<in> fst ` set ?obj"
    by blast+
  have "fst ` set ?obj \<subseteq> {d. d < 7}" by (rule fold_analyse_keys) simp
  with c have lt: "most_productive ?obj < 7" by auto
  have zero: "most_productive ?obj = 0" if "\<forall>d. completions_on tz completedTodos d = 0"
  proof (rule ccontr)
    assume "most_productive ?obj \<noteq> 0"
    then have "0 < most_productive ?obj" by simp
    with b have "day_count ?obj 0 < day_count ?obj (most_productive ?obj)" by blast
    with that show False by (simp add: cnt)
  qed
  from a b lt zero show ?thesis unfolding mp cnt by blast
qed

lemmas update_defs = update_todo_def findOne_owned_def findByIdAndUpdate_def apply_body_def
  stamp_completedAt_def delete_todo_def findByIdAndDelete_def

lemma history_db_eq:
  "history_db = \<lparr>users = [],
     todos = [(new_todo 0 7 ''draft'' Medium 0)\<lparr>completed := True, completedAt := Some 518400000\<rparr>,
              (new_todo 1 7 ''review'' Medium 86400000)
                 \<lparr>completed := True, completedAt := Some 345600000\<rparr>],
     next_id = 2\<rparr>"
  by (simp add: history_db_def todo_defs update_defs Let_def)

lemma history_analyse: "mostProductiveDay (analyse 0 (todos history_db)) = 1"
  by (simp add: history_db_eq analyse_def Let_def analyse_todo_def new_todo_def getDay_def
      ms_per_day_def or_default_def most_productive_def object_keys_def pick_day_def)

text \<open>In the example history the Wednesday completion enters the histogram first and
  ties with the Monday one; Monday, the lower index, is reported.\<close>

theorem most_productive_day_lowest_max_witness:
  "map (completion_day 0) (todos history_db) = [Some 3, Some 1] \<and>
   mostProductiveDay (analyse 0 (todos history_db)) = 1 \<and>
   completions_on 0 (todos history_db) 3 \<le> completions_on 0 (todos history_db) 1 \<and>
   completions_on 0 (todos history_db) 0 < completions_on 0 (todos history_db) 1 \<and>
   (\<forall>d. completions_on 0 [] d = 0) \<and>
   mostProductiveDay (analyse 0 []) = 0"
proof -
  have days: "map (completion_day 0) (todos history_db) = [Some 3, Some 1]"
    by (simp add: history_db_eq completion_day_def new_todo_def getDay_def ms_per_day_def)
  have none: "\<forall>d. completions_on 0 [] d = 0" by (simp add: completions_on_def)
  note a = most_productive_day_lowest_max [of 0 "todos history_db", unfolded history_analyse]
  note b = most_productive_day_lowest_max [of 0 "[]", THEN conjunct2, THEN conjunct2, THEN conjunct2, THEN mp, OF none]
  have "(0::nat) < 1" by simp
  with a have "completions_on 0 (todos history_db) 0 < completions_on 0 (todos history_db) 1"
    by blast
  moreover from a have "completions_on 0 (todos history_db) 3 \<le> completions_on 0 (todos history_db) 1"
    by blast
  ultimately show ?thesis using days none b history_analyse by blast
qed


subsection \<open>Runs of todo requests\<close>

lemma plan_tomorrow_db:
  "snd (plan_tomorrow tz uid now s) = s \<or>
   (\<exists>A. snd (plan_tomorrow tz uid now s) =
      s\<lparr>todos := map (\<lambda>t. if todo_id t \<in> A then t\<lparr>dueDate := Some (tomorrow_of tz now)\<rparr> else t)
                    (todos s)\<rparr>)"
proof (cases "find_due (tomorrow_of tz now) uid (todos s) = []")
  case True
  have "fold (save_dueDate d) t2 (fold (save_dueDate d) t1 ts) =
        map (\<lambda>t. if todo_id t \<in> todo_id ` set (t1 @ t2) then t\<lparr>dueDate := Some d\<rparr> else t) ts"
    for d t1 t2 ts
    using fold_save_dueDate [of d "t1 @ t2" ts] by simp
  with True show ?thesis
    by (auto simp: plan_tomorrow_def Let_def simp del: set_append)
next
  case False
  then show ?thesis by (simp add: plan_tomorrow_def Let_def)
qed

text \<open>Each step changes the list of todos in one of four ways.\<close>

lemma todo_step_cases:
  obtains (same) "todo_step tz op s = s"
  | (created) uid b now t where "op = Create uid b now"
      "todo_step tz op s = s\<lparr>todos := todos s @ [t], next_id := Suc (next_id s)\<rparr>"
      "todo_id t = next_id s" "completedAt t = None"
      "completed t = or_default (body_completed b) False"
  | (updated) uid tid b now t where "op = Update uid tid b now"
      "findOne_owned tid uid (todos s) = Some t"
      "todo_step tz op s = s\<lparr>todos := findByIdAndUpdate tid (stamp_completedAt now t b) (todos s)\<rparr>"
  | (deleted) tid where "todo_step tz op s = s\<lparr>todos := findByIdAndDelete tid (todos s)\<rparr>"
  | (planned) A d where "todo_step tz op s =
      s\<lparr>todos := map (\<lambda>t. if todo_id t \<in> A then t\<lparr>dueDate := Some d\<rparr> else t) (todos s)\<rparr>"
proof (cases op)
  case (Create uid b now)
  then show ?thesis
    using same created by (cases "body_title b") (auto simp: create_todo_def Let_def)
next
  case (Update uid tid b now)
  then show ?thesis
    using same updated by (cases "findOne_owned tid uid (todos s)") (auto simp: update_todo_def Let_def)
next
  case (Delete uid tid)
  then show ?thesis
    using same deleted by (cases "findOne_owned tid uid (todos s)") (auto simp: delete_todo_def)
next
  case (PlanTomorrow uid now)
  then show ?thesis
    using same planned plan_tomorrow_db [of tz uid now s] by auto
qed


lemma find_id_append:
  "find (\<lambda>t. todo_id t = i) (ts @ [t]) =
     (case find (\<lambda>t. todo_id t = i) ts of None \<Rightarrow> if todo_id t = i then Some t else None
      | Some x \<Rightarrow> Some x)"
  by (induction ts) auto

lemma find_id_map:
  assumes "\<And>t. todo_id (f t) = todo_id t"
  shows "find (\<lambda>t. todo_id t = i) (map f ts) = map_option f (find (\<lambda>t. todo_id t = i) ts)"
  by (induction ts) (auto simp: assms)

lemma find_id_delete:
  "find (\<lambda>t. todo_id t = i) (findByIdAndDelete tid ts) =
     (if i = tid then None else find (\<lambda>t. todo_id t = i) ts)"
  by (induction ts) (auto simp: findByIdAndDelete_def)

lemma todo_id_apply_body [simp]: "todo_id (apply_body b t) = todo_id t"
  by (simp add: apply_body_def)

lemma user_apply_body: "body_user b = None \<Longrightarrow> user (apply_body b t) = user t"
  by (simp add: apply_body_def or_default_def)

lemma body_user_stamp [simp]: "body_user (stamp_completedAt now t b) = body_user b"
  by (simp add: stamp_completedAt_def)

lemma ids_findByIdAndUpdate [simp]:
  "map todo_id (findByIdAndUpdate tid b ts) = map todo_id ts"
  by (simp add: findByIdAndUpdate_def)

lemma ids_set_due [simp]:
  "map todo_id (map (\<lambda>t. if todo_id t \<in> A then t\<lparr>dueDate := Some d\<rparr> else t) ts) = map todo_id ts"
  by simp

lemma wf_todos_step:
  assumes "wf_todos s"
  shows "wf_todos (todo_step tz op s) \<and> next_id s \<le> next_id (todo_step tz op s)"
proof (cases tz op s rule: todo_step_cases)
  case same
  with assms show ?thesis by simp
next
  case (created uid b now t)
  with assms show ?thesis by (auto simp: wf_todos_def)
next
  case (updated uid tid b now t)
  have "set (findByIdAndUpdate tid b' (todos s)) \<subseteq> {x. todo_id x < next_id s}" for b'
    using assms by (auto simp: wf_todos_def findByIdAndUpdate_def)
  with assms show ?thesis unfolding updated(3) by (auto simp: wf_todos_def)
next
  case (deleted tid)
  with assms show ?thesis
    by (auto simp: wf_todos_def findByIdAndDelete_def distinct_map_filter)
next
  case (planned A d)
  have "distinct (map todo_id (map (\<lambda>t. if todo_id t \<in> A then t\<lparr>dueDate := Some d\<rparr> else t) (todos s)))"
    using assms unfolding ids_set_due by (simp add: wf_todos_def)
  with assms show ?thesis unfolding planned by (auto simp: wf_todos_def)
qed

lemma owner_of_step:
  assumes wf: "wf_todos s" and op: "\<not> sets_user op" and i: "i < next_id s"
    and o: "owner_of s i = None \<or> owner_of s i = Some u"
  shows "owner_of (todo_step tz op s) i = None \<or> owner_of (todo_step tz op s) i = Some u"
proof (cases tz op s rule: todo_step_cases)
  case same
  with o show ?thesis by simp
next
  case (created uid b now t)
  with i o show ?thesis
    by (auto simp: owner_of_def find_id_append split: option.splits)
next
  case (updated uid tid b now t)
  with op have "body_user (stamp_completedAt now t b) = None" by simp
  then have same_user:
    "user (if todo_id x = tid then apply_body (stamp_completedAt now t b) x else x) = user x" for x
    by (simp add: user_apply_body)
  have "owner_of (todo_step tz op s) i = owner_of s i"
    unfolding updated(3) owner_of_def findByIdAndUpdate_def
    by (simp add: find_id_map option.map_comp comp_def same_user)
  with o show ?thesis by simp
next
  case (deleted tid)
  with o show ?thesis by (auto simp: owner_of_def find_id_delete)
next
  case (planned A d)
  have same_user: "user (if todo_id x \<in> A then x\<lparr>dueDate := Some d\<rparr> else x) = user x" for x
    by simp
  have "owner_of (todo_step tz op s) i = owner_of s i"
    unfolding planned owner_of_def
    by (simp add: find_id_map option.map_comp comp_def same_user)
  with o show ?thesis by simp
qed

lemma owner_of_run:
  assumes "wf_todos s" and "\<forall>op \<in> set ops. \<not> sets_user op" and "i < next_id s"
    and "owner_of s i = None \<or> owner_of s i = Some u"
  shows "owner_of (run_todo_ops tz ops s) i = None \<or> owner_of (run_todo_ops tz ops s) i = Some u"
  using assms
proof (induction ops arbitrary: s)
  case Nil
  then show ?case by (simp add: run_todo_ops_def)
next
  case (Cons op ops)
  have "wf_todos (todo_step tz op s)" "i < next_id (todo_step tz op s)"
    using wf_todos_step [OF Cons.prems(1), of tz op] Cons.prems(3) by auto
  moreover have "owner_of (todo_step tz op s) i = None \<or> owner_of (todo_step tz op s) i = Some u"
    using Cons.prems by (intro owner_of_step) auto
  ultimately have "owner_of (run_todo_ops tz ops (todo_step tz op s)) i = None \<or>
      owner_of (run_todo_ops tz ops (todo_step tz op s)) i = Some u"
    using Cons.prems(2) by (intro Cons.IH) auto
  then show ?case by (simp add: run_todo_ops_def)
qed

lemma owner_of_below: "wf_todos s \<Longrightarrow> owner_of s i = Some u \<Longrightarrow> i < next_id s"
  by (auto simp: owner_of_def wf_todos_def find_Some_iff)


lemma find_id_distinct:
  "distinct (map todo_id ts) \<Longrightarrow> t \<in> set ts \<Longrightarrow> find (\<lambda>x. todo_id x = todo_id t) ts = Some t"
  by (induction ts) (auto simp: image_iff)

lemma update_todo_reply:
  assumes wf: "wf_todos s" and t: "findOne_owned tid uid (todos s) = Some t"
  shows "update_todo uid tid b now s =
           (Inr (Some (apply_body (stamp_completedAt now t b) t)),
            s\<lparr>todos := findByIdAndUpdate tid (stamp_completedAt now t b) (todos s)\<rparr>)"
proof -
  from t have "t \<in> set (todos s)" "todo_id t = tid"
    by (auto simp: findOne_owned_def find_Some_iff)
  with wf have "find (\<lambda>x. todo_id x = tid) (todos s) = Some t"
    using find_id_distinct [of "todos s" t] by (auto simp: wf_todos_def)
  then have "find (\<lambda>x. todo_id x = tid) (findByIdAndUpdate tid b' (todos s)) = Some (apply_body b' t)" for b'
    using \<open>todo_id t = tid\<close> by (simp add: findByIdAndUpdate_def find_id_map)
  with t show ?thesis by (simp add: update_todo_def Let_def)
qed






lemma wf_planning_db: "wf_todos planning_db"
  by (simp add: planning_db_eq wf_todos_def new_todo_def)

lemma wf_history_db: "wf_todos history_db"
  by (simp add: history_db_eq wf_todos_def new_todo_def)

lemma history_ops_plain:
  "\<forall>op \<in> set history_ops. \<not> sets_user op"
  "\<forall>op \<in> set history_ops. \<not> sets_completedAt op \<and> \<not> creates_completed op"
  "\<forall>op \<in> set history_ops. \<not> sets_completedAt op"
  by (simp_all add: history_ops_def empty_body_def)

lemma history_owner: "owner_of history_db 0 = Some 7"
  by (simp add: history_db_eq owner_of_def new_todo_def)

lemma planning_report:
  "findOne_owned 0 7 (todos planning_db) = Some ((new_todo 0 7 ''report'' High 1000)\<lparr>dueDate := Some 4000\<rparr>)"
  by (simp add: planning_db_eq findOne_owned_def new_todo_def)

text \<open>
  C3.  The claim: a todo's owner never changes after creation, whatever body a
  \<open>PUT /todos/:id\<close> of the owner carries.  What the code does: the update passes
  the request body on as it is, so a body with a \<open>user\<close> field rewrites the
  owner.  User 7 puts such a body on their own todo, and it belongs to user 9
  afterwards.
\<close>

theorem put_changes_owner:
  "owner_of planning_db 0 = Some 7 \<and>
   findOne_owned 0 7 (todos planning_db) =
     Some ((new_todo 0 7 ''report'' High 1000)\<lparr>dueDate := Some 4000\<rparr>) \<and>
   fst (update_todo 7 0 (empty_body\<lparr>body_user := Some 9\<rparr>) 5000 planning_db) =
     Inr (Some ((new_todo 0 7 ''report'' High 1000)\<lparr>dueDate := Some 4000, user := 9\<rparr>)) \<and>
   owner_of (snd (update_todo 7 0 (empty_body\<lparr>body_user := Some 9\<rparr>) 5000 planning_db)) 0 =
     Some 9"
  by (simp add: planning_db_eq owner_of_def update_defs new_todo_def empty_body_def or_default_def
      Let_def)

text \<open>
  The \<open>user\<close> field of an update body is the only way to change an owner: through
  any run of create, update, delete and plan-tomorrow requests in which no update body
  carries it, a todo keeps its owner for as long as it exists, and its identifier is
  never given to another todo; an update by the owner with such a body answers with the
  updated todo, whose owner is the requester.
\<close>

theorem owner_unchanged:
  assumes "wf_todos s"
  shows "((\<forall>op \<in> set ops. \<not> sets_user op) \<and> owner_of s i = Some u \<longrightarrow>
            owner_of (run_todo_ops tz ops s) i = None \<or>
            owner_of (run_todo_ops tz ops s) i = Some u) \<and>
         (body_user b = None \<and> findOne_owned tid uid (todos s) = Some t \<longrightarrow>
            fst (update_todo uid tid b now s) =
              Inr (Some (apply_body (stamp_completedAt now t b) t)) \<and>
            user (apply_body (stamp_completedAt now t b) t) = uid \<and>
            owner_of (snd (update_todo uid tid b now s)) tid = Some uid)"
proof (intro conjI impI)
  assume h: "(\<forall>op \<in> set ops. \<not> sets_user op) \<and> owner_of s i = Some u"
  then have "i < next_id s" using assms by (auto intro: owner_of_below)
  with h assms show "owner_of (run_todo_ops tz ops s) i = None \<or>
            owner_of (run_todo_ops tz ops s) i = Some u"
    by (intro owner_of_run) auto
next
  assume h: "body_user b = None \<and> findOne_owned tid uid (todos s) = Some t"
  then have t: "findOne_owned tid uid (todos s) = Some t" and b: "body_user b = None" by simp_all
  from t have ut: "user t = uid" "todo_id t = tid"
    by (auto simp: findOne_owned_def find_Some_iff)
  note r = update_todo_reply [OF assms t, of b now]
  show "fst (update_todo uid tid b now s) = Inr (Some (apply_body (stamp_completedAt now t b) t))"
    by (simp add: r)
  show u: "user (apply_body (stamp_completedAt now t b) t) = uid"
    using b ut by (simp add: user_apply_body)
  have "find (\<lambda>x. todo_id x = tid) (findByIdAndUpdate tid (stamp_completedAt now t b) (todos s)) =
        Some (apply_body (stamp_completedAt now t b) t)"
    using r by (simp add: update_todo_def t Let_def)
  then show "owner_of (snd (update_todo uid tid b now s)) tid = Some uid"
    by (simp add: r owner_of_def u)
qed

theorem owner_unchanged_witness:
  "wf_todos history_db \<and> filter sets_user history_ops = [] \<and>
   owner_of history_db 0 = Some 7 \<and>
   (owner_of (run_todo_ops 0 history_ops history_db) 0 = None \<or>
    owner_of (run_todo_ops 0 history_ops history_db) 0 = Some 7) \<and>
   body_user (empty_body\<lparr>body_title := Some ''report v2''\<rparr>) = None \<and>
   findOne_owned 0 7 (todos planning_db) =
     Some ((new_todo 0 7 ''report'' High 1000)\<lparr>dueDate := Some 4000\<rparr>) \<and>
   owner_of (snd (update_todo 7 0 (empty_body\<lparr>body_title := Some ''report v2''\<rparr>) 5000
      planning_db)) 0 = Some 7"
proof -
  let ?b = "empty_body\<lparr>body_title := Some ''report v2''\<rparr>"
  have b: "body_user ?b = None" by (simp add: empty_body_def)
  note run = owner_unchanged [OF wf_history_db, where ops = history_ops and i = 0 and u = 7
      and tz = 0, THEN conjunct1, THEN mp, OF conjI, OF history_ops_plain(1) history_owner]
  note put = owner_unchanged [OF wf_planning_db, where b = ?b and tid = 0 and uid = 7
      and now = 5000, THEN conjunct2, THEN mp, OF conjI, OF b planning_report]
  have "filter sets_user history_ops = []"
    using history_ops_plain(1) by (simp add: filter_empty_conv)
  with wf_history_db history_owner run b planning_report put
  show ?thesis by blast
qed




end
